theory Spec2Isabelle
  imports Main "HOL-Library.Word"
begin

unbundle bit_operations_syntax

section \<open>Shield I/O control module (shield.c): data model\<close>

text \<open>
  The C types of shield.c: \<open>uint8_t\<close> register bytes are 8-bit words, \<open>unsigned int\<close>
  pin numbers are 32-bit words (so \<open>pin_number - 1\<close> wraps at 0 as in C), and \<open>int\<close>
  values that never leave a small range (modes, levels, return codes) are integers.
\<close>

type_synonym u8 = "8 word"
type_synonym uint = "32 word"

text \<open>The seven select lines GPIO_GEN0 .. GPIO_GEN6 of shield.h.\<close>

datatype gpio_pin =
  GPIO_GEN0 | GPIO_GEN1 | GPIO_GEN2 | GPIO_GEN3 | GPIO_GEN4 | GPIO_GEN5 | GPIO_GEN6

text \<open>
  Calls that leave the process, in program order. \<open>Gpio_lev_sample m\<close> is one call of
  \<open>GetShieldMode\<close> (its seven \<open>bcm2835_gpio_lev\<close> reads) that formed the value \<open>m\<close>.
  Calls of the \<open>LOG\<close> macro are not recorded.
\<close>

datatype event =
    Gpio_fsel gpio_pin
  | Gpio_write gpio_pin bool
  | Gpio_lev_sample int
  | Usleep nat
  | Spi_writenb "u8 list"
  | Spi_transfer u8
  | Spi_transfern "u8 list"
  | Get_param
  | Set_param int
  | System string
  | Spi_end
  | Bcm_close

text \<open>
  The process-wide state of shield.c together with the hardware it talks to.
  \<^item> \<open>internalRegister\<close>, \<open>outputRegister1\<close>, \<open>outputRegister2\<close>: the two-byte global arrays,
    as pairs (element 0, element 1).
  \<^item> \<open>gpio_level\<close>: the level last driven on each select line by \<open>bcm2835_gpio_write\<close>.
  \<^item> \<open>readback\<close>: the board's behaviour on \<open>bcm2835_gpio_lev\<close>: given the number of earlier
    \<open>GetShieldMode\<close> samples and the driven levels, the level sensed on each line. A board
    that latches is \<open>\<lambda>k drv. drv\<close>; a wedged one answers something else.
  \<^item> \<open>miso\<close>, \<open>spi_count\<close>: the bytes the serial link clocks in, and how many were consumed.
  \<^item> \<open>rebootcount\<close>: the persisted parameter "shield.rebootcount".
  \<^item> \<open>trace\<close>: the external calls made so far.
\<close>

record world =
  internalRegister :: "u8 \<times> u8"
  outputRegister1 :: "u8 \<times> u8"
  outputRegister2 :: "u8 \<times> u8"
  spi_delay_usecs :: nat
  gpio_delay_usecs :: nat
  gpio_level :: "gpio_pin \<Rightarrow> bool"
  readback :: "nat \<Rightarrow> (gpio_pin \<Rightarrow> bool) \<Rightarrow> gpio_pin \<Rightarrow> bool"
  samples :: nat
  miso :: "nat \<Rightarrow> u8"
  spi_count :: nat
  rebootcount :: int
  trace :: "event list"

text \<open>
  How a call ends: it returns a value, the process exits (\<open>exit(status)\<close>), or the C
  program has no defined behaviour at this input (a shift by 32 or more, a read through
  NULL or past a buffer, the use of an uninitialised variable).
\<close>

datatype 'a outcome = Return 'a world | Exit int world | Undefined

definition and_then :: "'a outcome \<Rightarrow> ('a \<Rightarrow> world \<Rightarrow> 'b outcome) \<Rightarrow> 'b outcome" where
  "and_then r f = (case r of Return a w \<Rightarrow> f a w | Exit s w \<Rightarrow> Exit s w | Undefined \<Rightarrow> Undefined)"

subsection \<open>Constants of shield.h and bcm2835.h\<close>

definition HIGH :: int where "HIGH = 1"
definition LOW :: int where "LOW = 0"

definition DIO :: int where "DIO = 0"
definition SPI :: int where "SPI = 1"
definition SIO :: int where "SIO = 2"

definition INIT_ALL_LOW :: int where "INIT_ALL_LOW = 0x00"
definition NONE :: int where "NONE = 0x70"
definition INTERNAL_REG :: int where "INTERNAL_REG = 0x78"
definition OUTPUT_REG_1 :: int where "OUTPUT_REG_1 = 0x79"
definition OUTPUT_REG_2 :: int where "OUTPUT_REG_2 = 0x7A"
definition INPUT_REG :: int where "INPUT_REG = 0x7B"
definition DAC :: int where "DAC = 0x7E"
definition RTC :: int where "RTC = 0x7D"
definition ADC :: int where "ADC = 0x7F"

text \<open>The nine enumerators of \<open>enum ShieldMode\<close>.\<close>

definition ShieldModes :: "int list" where
  "ShieldModes =
     [INIT_ALL_LOW, NONE, INTERNAL_REG, OUTPUT_REG_1, OUTPUT_REG_2, INPUT_REG, DAC, RTC, ADC]"

definition MAX_SAMPLING_RETRY_TIME :: int where "MAX_SAMPLING_RETRY_TIME = 3"
definition MAX_REBOOT_RETRY_TIME :: int where "MAX_REBOOT_RETRY_TIME = 3"
definition ADC_MAXIMUM :: int where "ADC_MAXIMUM = 4095"

subsection \<open>The platform library, as far as shield.c uses it\<close>

definition emit :: "event \<Rightarrow> world \<Rightarrow> world" where
  "emit e w = w\<lparr>trace := trace w @ [e]\<rparr>"

definition bcm2835_gpio_fsel :: "gpio_pin \<Rightarrow> world \<Rightarrow> world" where
  "bcm2835_gpio_fsel p w = emit (Gpio_fsel p) w"

definition bcm2835_gpio_write :: "gpio_pin \<Rightarrow> int \<Rightarrow> world \<Rightarrow> world" where
  "bcm2835_gpio_write p v w =
     emit (Gpio_write p (v \<noteq> 0)) (w\<lparr>gpio_level := (gpio_level w)(p := (v \<noteq> 0))\<rparr>)"

definition bcm2835_gpio_lev :: "world \<Rightarrow> gpio_pin \<Rightarrow> int" where
  "bcm2835_gpio_lev w = (\<lambda>p. of_bool (readback w (samples w) (gpio_level w) p))"

definition usleep :: "nat \<Rightarrow> world \<Rightarrow> world" where
  "usleep n w = emit (Usleep n) w"

definition bcm2835_spi_writenb :: "u8 list \<Rightarrow> world \<Rightarrow> world" where
  "bcm2835_spi_writenb bs w = emit (Spi_writenb bs) w"

definition bcm2835_spi_transfer :: "u8 \<Rightarrow> world \<Rightarrow> world" where
  "bcm2835_spi_transfer b w = emit (Spi_transfer b) (w\<lparr>spi_count := spi_count w + 1\<rparr>)"

text \<open>A duplex transfer of two bytes: sends the buffer, returns the two bytes clocked in.\<close>

definition bcm2835_spi_transfern2 :: "u8 \<times> u8 \<Rightarrow> world \<Rightarrow> (u8 \<times> u8) \<times> world" where
  "bcm2835_spi_transfern2 buf w =
     ((miso w (spi_count w), miso w (spi_count w + 1)),
      emit (Spi_transfern [fst buf, snd buf]) (w\<lparr>spi_count := spi_count w + 2\<rparr>))"

text \<open>
  Modelled from the spec: the configuration store (\<open>GetParamInt\<close>, \<open>SetParam\<close> of database.h,
  "GetInt(key) -> int, SetInt(key, value)", persisting across restarts), restricted to the
  one key shield.c uses, "shield.rebootcount".
\<close>

definition GetParamInt_rebootcount :: "world \<Rightarrow> int \<times> world" where
  "GetParamInt_rebootcount w = (rebootcount w, emit Get_param w)"

definition SetParam_rebootcount :: "int \<Rightarrow> world \<Rightarrow> world" where
  "SetParam_rebootcount v w = emit (Set_param v) (w\<lparr>rebootcount := v\<rparr>)"

definition system :: "string \<Rightarrow> world \<Rightarrow> world" where
  "system cmd w = emit (System cmd) w"

definition run :: "(world \<Rightarrow> world) list \<Rightarrow> world \<Rightarrow> world" where
  "run ops w = fold (\<lambda>op. op) ops w"

section \<open>Mode selector\<close>

definition SetShieldMode :: "int \<Rightarrow> world \<Rightarrow> world" where
  "SetShieldMode mode w =
     (let w1 = run
        [bcm2835_gpio_fsel GPIO_GEN0, bcm2835_gpio_fsel GPIO_GEN1, bcm2835_gpio_fsel GPIO_GEN2,
         bcm2835_gpio_fsel GPIO_GEN3, bcm2835_gpio_fsel GPIO_GEN4, bcm2835_gpio_fsel GPIO_GEN5,
         bcm2835_gpio_fsel GPIO_GEN6,
         bcm2835_gpio_write GPIO_GEN6 HIGH, bcm2835_gpio_write GPIO_GEN5 HIGH,
         bcm2835_gpio_write GPIO_GEN4 HIGH, bcm2835_gpio_write GPIO_GEN3 HIGH,
         usleep (gpio_delay_usecs w)] w;
        w2 =
         (if mode = INIT_ALL_LOW then run
            [bcm2835_gpio_write GPIO_GEN6 LOW, bcm2835_gpio_write GPIO_GEN5 LOW,
             bcm2835_gpio_write GPIO_GEN4 LOW, bcm2835_gpio_write GPIO_GEN3 LOW,
             bcm2835_gpio_write GPIO_GEN2 LOW, bcm2835_gpio_write GPIO_GEN1 LOW,
             bcm2835_gpio_write GPIO_GEN0 LOW] w1
          else if mode = NONE then run
            [bcm2835_gpio_write GPIO_GEN3 LOW, bcm2835_gpio_write GPIO_GEN2 LOW,
             bcm2835_gpio_write GPIO_GEN1 LOW, bcm2835_gpio_write GPIO_GEN0 LOW] w1
          else if mode = DAC then run
            [bcm2835_gpio_write GPIO_GEN2 HIGH, bcm2835_gpio_write GPIO_GEN1 HIGH,
             bcm2835_gpio_write GPIO_GEN0 LOW] w1
          else if mode = RTC then run
            [bcm2835_gpio_write GPIO_GEN2 HIGH, bcm2835_gpio_write GPIO_GEN1 LOW,
             bcm2835_gpio_write GPIO_GEN0 HIGH] w1
          else if mode = INTERNAL_REG then run
            [bcm2835_gpio_write GPIO_GEN2 LOW, bcm2835_gpio_write GPIO_GEN1 LOW,
             bcm2835_gpio_write GPIO_GEN0 LOW] w1
          else if mode = OUTPUT_REG_1 then run
            [bcm2835_gpio_write GPIO_GEN2 LOW, bcm2835_gpio_write GPIO_GEN1 LOW,
             bcm2835_gpio_write GPIO_GEN0 HIGH] w1
          else if mode = OUTPUT_REG_2 then run
            [bcm2835_gpio_write GPIO_GEN2 LOW, bcm2835_gpio_write GPIO_GEN1 HIGH,
             bcm2835_gpio_write GPIO_GEN0 LOW] w1
          else if mode = INPUT_REG then run
            [bcm2835_gpio_write GPIO_GEN2 LOW, bcm2835_gpio_write GPIO_GEN1 HIGH,
             bcm2835_gpio_write GPIO_GEN0 HIGH] w1
          else run
            [bcm2835_gpio_write GPIO_GEN2 HIGH, bcm2835_gpio_write GPIO_GEN1 HIGH,
             bcm2835_gpio_write GPIO_GEN0 HIGH] w1)
      in usleep (gpio_delay_usecs w) w2)"

text \<open>The integer \<open>GetShieldMode\<close> forms from the seven levels, GPIO_GEN6 first.\<close>

definition mode_of_levels :: "(gpio_pin \<Rightarrow> int) \<Rightarrow> int" where
  "mode_of_levels lev =
     push_bit 6 (lev GPIO_GEN6) + push_bit 5 (lev GPIO_GEN5) + push_bit 4 (lev GPIO_GEN4)
     + push_bit 3 (lev GPIO_GEN3) + push_bit 2 (lev GPIO_GEN2) + push_bit 1 (lev GPIO_GEN1)
     + lev GPIO_GEN0"

definition GetShieldMode :: "world \<Rightarrow> int \<times> world" where
  "GetShieldMode w =
     (let mode = mode_of_levels (bcm2835_gpio_lev w)
      in (mode, emit (Gpio_lev_sample mode) (w\<lparr>samples := samples w + 1\<rparr>)))"

text \<open>The seven driven levels written most-significant first, GPIO_GEN6 .. GPIO_GEN0.\<close>

definition pattern :: "world \<Rightarrow> bool list" where
  "pattern w = map (gpio_level w)
     [GPIO_GEN6, GPIO_GEN5, GPIO_GEN4, GPIO_GEN3, GPIO_GEN2, GPIO_GEN1, GPIO_GEN0]"

section \<open>Mode verifier\<close>

definition ShieldLibClose :: "world \<Rightarrow> world" where
  "ShieldLibClose w = emit Bcm_close (emit Spi_end w)"

text \<open>The body of the \<open>sampling_count > MAX_SAMPLING_RETRY_TIME\<close> branch; \<open>FALSE\<close> is 0.\<close>

definition escalate :: "world \<Rightarrow> unit outcome" where
  "escalate w =
     (case GetParamInt_rebootcount w of (reboot_count, w1) \<Rightarrow>
        if reboot_count > MAX_REBOOT_RETRY_TIME
        then Exit 0 (ShieldLibClose (SetParam_rebootcount 0 w1))
        else Exit 0 (system ''sudo reboot'' (SetParam_rebootcount (reboot_count + 1) w1)))"

function verify_loop :: "int \<Rightarrow> int \<Rightarrow> world \<Rightarrow> unit outcome" where
  "verify_loop mode sampling_count w =
     (case GetShieldMode w of (m, w1) \<Rightarrow>
        if m \<noteq> mode then
          (if sampling_count > MAX_SAMPLING_RETRY_TIME then escalate w1
           else verify_loop mode (sampling_count + 1) w1)
        else Return () w1)"
  by pat_completeness auto
termination
  by (relation "measure (\<lambda>(mode, sampling_count, w). nat (4 - sampling_count))")
     (auto simp: MAX_SAMPLING_RETRY_TIME_def)

declare verify_loop.simps [simp del]

definition VerifyAndFixShieldMode :: "int \<Rightarrow> world \<Rightarrow> unit outcome" where
  "VerifyAndFixShieldMode mode w = verify_loop mode 1 w"

section \<open>Register codec\<close>

subsection \<open>C integer operations with their undefined cases\<close>

text \<open>
  \<open>1 << n\<close> on \<open>int\<close> with an \<open>unsigned int\<close> count: defined up to \<open>n = 30\<close> only.
\<close>

definition shl1 :: "uint \<Rightarrow> 32 word option" where
  "shl1 n = (if n < 31 then Some (push_bit (unat n) 1) else None)"

text \<open>
  \<open>r |= 1 << n\<close> and \<open>r &= ~(1 << n)\<close> on a \<open>uint8_t\<close>: the byte is promoted to \<open>int\<close>,
  combined, and the result converted back to eight bits.
\<close>

definition or_shl1 :: "u8 \<Rightarrow> uint \<Rightarrow> u8 option" where
  "or_shl1 r n = map_option (\<lambda>m. ucast ((ucast r :: 32 word) OR m)) (shl1 n)"

definition and_not_shl1 :: "u8 \<Rightarrow> uint \<Rightarrow> u8 option" where
  "and_not_shl1 r n = map_option (\<lambda>m. ucast ((ucast r :: 32 word) AND NOT m)) (shl1 n)"

text \<open>The macro \<open>getBit(x,n) ((x >> (n-1)) & 1)\<close> at a \<open>uint8_t\<close> x and an unsigned n.\<close>

definition getBit :: "u8 \<Rightarrow> uint \<Rightarrow> int option" where
  "getBit x n =
     (if n - 1 < 32
      then Some (uint (drop_bit (unat (n - 1)) (ucast x :: 32 word) AND 1))
      else None)"

subsection \<open>PinMode\<close>

text \<open>The two error branches: \<open>SetShieldMode(NONE); VerifyAndFixShieldMode(NONE); return -1\<close>.\<close>

definition force_none_fail :: "world \<Rightarrow> int outcome" where
  "force_none_fail w =
     and_then (VerifyAndFixShieldMode NONE (SetShieldMode NONE w)) (\<lambda>_ w'. Return (- 1) w')"

text \<open>The tail of PinMode: enter INTERNAL_REG, transmit the register, wait, return 0.\<close>

definition PinMode_transmit :: "world \<Rightarrow> int outcome" where
  "PinMode_transmit w =
     (let w1 = SetShieldMode INTERNAL_REG w;
          w2 = bcm2835_spi_writenb [fst (internalRegister w1), snd (internalRegister w1)] w1
      in Return 0 (usleep (spi_delay_usecs w2) w2))"

text \<open>
  A mode other than DIO, SPI, SIO indexes \<open>digi_mode_rep[mode]\<close> outside its three rows in
  the LOG call: no defined behaviour.
\<close>

definition PinMode :: "uint \<Rightarrow> int \<Rightarrow> world \<Rightarrow> int outcome" where
  "PinMode pin_number mode w =
     (if pin_number > 10 \<or> pin_number < 1 then Return (- 1) w
      else if mode = DIO then
        (if pin_number < 9 then
           (case and_not_shl1 (snd (internalRegister w)) (pin_number - 1) of
              None \<Rightarrow> Undefined
            | Some b \<Rightarrow> PinMode_transmit (w\<lparr>internalRegister := (fst (internalRegister w), b)\<rparr>))
         else
           (case and_not_shl1 (fst (internalRegister w)) (pin_number - 9) of
              None \<Rightarrow> Undefined
            | Some b \<Rightarrow> PinMode_transmit (w\<lparr>internalRegister := (b, snd (internalRegister w))\<rparr>)))
      else if mode = SPI then
        (if pin_number < 9 then
           (case or_shl1 (snd (internalRegister w)) (pin_number - 1) of
              None \<Rightarrow> Undefined
            | Some b \<Rightarrow> PinMode_transmit (w\<lparr>internalRegister := (fst (internalRegister w), b)\<rparr>))
         else force_none_fail w)
      else if mode = SIO then
        (if pin_number = 10 then
           (case or_shl1 (fst (internalRegister w)) (pin_number - 1) of
              None \<Rightarrow> Undefined
            | Some b \<Rightarrow> PinMode_transmit (w\<lparr>internalRegister := (b, snd (internalRegister w))\<rparr>))
         else force_none_fail w)
      else Undefined)"

subsection \<open>DigitalWrite\<close>

text \<open>
  The common tail of the three accepting branches: enter the register's mode, transmit
  the byte pair, wait, go back to NONE and verify, return 0.
\<close>

definition DigitalWrite_transmit :: "int \<Rightarrow> (world \<Rightarrow> u8 \<times> u8) \<Rightarrow> world \<Rightarrow> int outcome" where
  "DigitalWrite_transmit reg_mode reg w =
     (let w1 = SetShieldMode reg_mode w;
          w2 = bcm2835_spi_writenb [fst (reg w1), snd (reg w1)] w1;
          w3 = usleep (spi_delay_usecs w2) w2;
          w4 = SetShieldMode NONE w3
      in and_then (VerifyAndFixShieldMode NONE w4) (\<lambda>_ w'. Return 0 w'))"

definition DigitalWrite :: "uint \<Rightarrow> int \<Rightarrow> world \<Rightarrow> int outcome" where
  "DigitalWrite pin_number val w =
     (if pin_number \<le> 8 then
        (case (if val = HIGH then or_shl1 (snd (outputRegister1 w)) (pin_number - 1)
               else and_not_shl1 (snd (outputRegister1 w)) (pin_number - 1)) of
           None \<Rightarrow> Undefined
         | Some b \<Rightarrow>
             DigitalWrite_transmit OUTPUT_REG_1 outputRegister1
               (w\<lparr>outputRegister1 := (fst (outputRegister1 w), b)\<rparr>))
      else if pin_number \<ge> 9 \<and> pin_number \<le> 16 then
        (case (if val = HIGH then or_shl1 (fst (outputRegister1 w)) (pin_number - 9)
               else and_not_shl1 (fst (outputRegister1 w)) (pin_number - 9)) of
           None \<Rightarrow> Undefined
         | Some b \<Rightarrow>
             DigitalWrite_transmit OUTPUT_REG_1 outputRegister1
               (w\<lparr>outputRegister1 := (b, snd (outputRegister1 w))\<rparr>))
      else if pin_number \<ge> 17 \<and> pin_number \<le> 20 then
        (case (if val = HIGH then or_shl1 (snd (outputRegister2 w)) (pin_number - 17)
               else and_not_shl1 (snd (outputRegister2 w)) (pin_number - 17)) of
           None \<Rightarrow> Undefined
         | Some b \<Rightarrow>
             DigitalWrite_transmit OUTPUT_REG_2 outputRegister2
               (w\<lparr>outputRegister2 := (fst (outputRegister2 w), b)\<rparr>))
      else force_none_fail w)"

subsection \<open>DigitalRead\<close>

definition DigitalRead :: "uint \<Rightarrow> world \<Rightarrow> int outcome" where
  "DigitalRead pin_number w =
     (let w1 = SetShieldMode INPUT_REG w
      in case bcm2835_spi_transfern2 (0x00, 0x00) w1 of (inputRegister, w2) \<Rightarrow>
        (let w3 = usleep (spi_delay_usecs w2) w2;
             w4 = SetShieldMode NONE w3
         in and_then (VerifyAndFixShieldMode NONE w4) (\<lambda>_ w5.
              if pin_number \<le> 8 then
                (case getBit (snd inputRegister) pin_number of
                   None \<Rightarrow> Undefined | Some b \<Rightarrow> Return b w5)
              else if pin_number \<le> 10 then
                (case getBit (fst inputRegister) (pin_number - 8) of
                   None \<Rightarrow> Undefined | Some b \<Rightarrow> Return b w5)
              else Return (- 1) w5)))"

subsection \<open>AnalogRead and AnalogWrite\<close>

definition adcConversion :: "u8 list" where
  "adcConversion = [0x86, 0x8E, 0x96, 0x9E, 0xA6, 0xAE, 0xB6, 0xBE]"

text \<open>
  \<open>(rbuf[0] << 8) + rbuf[1]\<close> in \<open>int\<close>; the value is at most 65535, so the
  \<open>unsigned int\<close> the function returns is the same number.
\<close>

definition AnalogRead :: "uint \<Rightarrow> world \<Rightarrow> int outcome" where
  "AnalogRead port_num w =
     (if port_num > 7 then Return 0 w
      else
        (let w1 = SetShieldMode ADC w;
             w2 = bcm2835_spi_transfer (adcConversion ! unat port_num) w1;
             w3 = usleep (spi_delay_usecs w2) w2
         in case bcm2835_spi_transfern2 (0, 0) w3 of (rbuf, w4) \<Rightarrow>
           (let w5 = usleep (spi_delay_usecs w4) w4;
                result = push_bit 8 (uint (fst rbuf)) + uint (snd rbuf)
            in if result > ADC_MAXIMUM
               then Return (push_bit 8 (uint (fst rbuf AND 0x0F)) + uint (snd rbuf)) w5
               else and_then (VerifyAndFixShieldMode NONE (SetShieldMode NONE w5))
                      (\<lambda>_ w'. Return result w'))))"

text \<open>
  AnalogWrite computes two command bytes in floating point; they are taken as the
  parameter \<open>dac_bytes\<close> (from the clamped millivolt value). \<open>bcm2835_spi_writenb("0x68", 1)\<close>
  sends the first character of the literal, the byte 0x30.
\<close>

definition AnalogWrite :: "(nat \<Rightarrow> u8 \<times> u8) \<Rightarrow> uint \<Rightarrow> uint \<Rightarrow> world \<Rightarrow> unit outcome" where
  "AnalogWrite dac_bytes adc_addr mv_value w =
     (let mv_value = (if mv_value > 2230 then 2230 else mv_value);
          adc_addr = (if adc_addr > 1 then 1 else adc_addr);
          adc_cmd = [0x30 + ucast adc_addr, fst (dac_bytes (unat mv_value)),
                     snd (dac_bytes (unat mv_value))];
          w1 = SetShieldMode ADC w;
          w2 = bcm2835_spi_writenb [0x30] w1;
          w3 = usleep (spi_delay_usecs w2) w2;
          w4 = bcm2835_spi_writenb [0x30] w3;
          w5 = usleep (spi_delay_usecs w4) w4
      in case bcm2835_spi_transfern2 (0x00, 0x00) w5 of (buf, w6) \<Rightarrow>
        (let w7 = usleep (spi_delay_usecs w6) w6;
             w8 = SetShieldMode DAC w7;
             w9 = bcm2835_spi_writenb adc_cmd w8;
             w10 = usleep (spi_delay_usecs w9) w9;
             w11 = SetShieldMode NONE w10
         in VerifyAndFixShieldMode NONE w11))"

section \<open>Name-based (RPC) wrappers\<close>

subsection \<open>The C library on strings\<close>

text \<open>
  A C string is the characters before the first NUL. A pointer into a character buffer
  is an offset; \<open>NULL\<close> is \<open>None\<close>.
\<close>

definition NUL :: char where "NUL = CHR 0x00"

definition cstr :: "string \<Rightarrow> string" where
  "cstr s = takeWhile (\<lambda>c. c \<noteq> NUL) s"

definition str_at :: "char list \<Rightarrow> nat \<Rightarrow> string" where
  "str_at buf p = cstr (drop p buf)"

definition isspace :: "char \<Rightarrow> bool" where
  "isspace c = (c = CHR '' '' \<or> (9 \<le> (of_char c :: nat) \<and> (of_char c :: nat) \<le> 13))"

definition isdigit :: "char \<Rightarrow> bool" where
  "isdigit c = (48 \<le> (of_char c :: nat) \<and> (of_char c :: nat) \<le> 57)"

text \<open>
  \<open>atoi\<close>: leading white space, an optional sign, then decimal digits; a value that does
  not fit an \<open>int\<close> has no defined result.
\<close>

definition atoi :: "string \<Rightarrow> int option" where
  "atoi s =
     (let s1 = dropWhile isspace s;
          neg = (s1 \<noteq> [] \<and> hd s1 = CHR ''-'');
          s2 = (if s1 \<noteq> [] \<and> (hd s1 = CHR ''-'' \<or> hd s1 = CHR ''+'') then tl s1 else s1);
          n = foldl (\<lambda>a c. 10 * a + (of_char c - 48)) (0::int) (takeWhile isdigit s2);
          v = (if neg then - n else n)
      in if - (2 ^ 31) \<le> v \<and> v < 2 ^ 31 then Some v else None)"

text \<open>
  \<open>strtok(_, ".")\<close> resumed at offset \<open>s\<close> of the buffer: skips dots, returns the offset of
  the next token (or NULL), writes a NUL over the dot that ends it, and the offset where
  the next call resumes.
\<close>

definition strtok_dot :: "char list \<Rightarrow> nat \<Rightarrow> nat option \<times> char list \<times> nat" where
  "strtok_dot buf s =
     (let s1 = s + length (takeWhile (\<lambda>c. c = CHR ''.'') (drop s buf))
      in if s1 \<ge> length buf \<or> buf ! s1 = NUL then (None, buf, s1)
         else
           (let e = s1 + length (takeWhile (\<lambda>c. c \<noteq> CHR ''.'' \<and> c \<noteq> NUL) (drop s1 buf))
            in if e < length buf \<and> buf ! e = CHR ''.'' then (Some s1, buf[e := NUL], e + 1)
               else (Some s1, buf, e)))"

text \<open>\<open>strncmp\<close>: zero exactly when the first n characters (up to the terminator) agree.\<close>

fun strncmp :: "string \<Rightarrow> string \<Rightarrow> nat \<Rightarrow> int" where
  "strncmp a b 0 = 0"
| "strncmp [] [] (Suc n) = 0"
| "strncmp [] (y # ys) (Suc n) = - of_char y"
| "strncmp (x # xs) [] (Suc n) = of_char x"
| "strncmp (x # xs) (y # ys) (Suc n) =
     (if x = y then strncmp xs ys n else of_char x - of_char y)"

subsection \<open>RpcChangeMode\<close>

text \<open>
  \<open>param + strlen("shield.cn")\<close> lies inside the string only when it has nine characters
  or more; \<open>strncpy(port_str, _, 2)\<close> takes at most two characters from there.
\<close>

definition RpcChangeMode :: "string option \<Rightarrow> string option \<Rightarrow> world \<Rightarrow> int outcome" where
  "RpcChangeMode param val w =
     (case param of None \<Rightarrow> Undefined | Some p0 \<Rightarrow>
      case val of None \<Rightarrow> Undefined | Some v0 \<Rightarrow>
        (let p = cstr p0; v = cstr v0; mode0 = SPI
         in if length p < 9 then Undefined
            else
              (let port_str = take 2 (drop 9 p)
               in case atoi port_str of None \<Rightarrow> Undefined | Some n \<Rightarrow>
                 (let port_num = n - 10;
                      mode = (if strncmp ''dio'' v 1 = 0 then DIO
                              else if strncmp ''spi'' v 2 = 0 then SPI
                              else if strncmp ''sio'' v 2 = 0 then SIO
                              else mode0)
                  in PinMode (of_int port_num) mode w))))"

subsection \<open>RpcPinWrite\<close>

text \<open>
  The \<open>switch (port_str[1])\<close>: the output pins (CNxx_2, CNxx_4) of \<open>enum PinDigitalOut\<close> for
  the ten digit cases, \<open>None\<close> for the default case.
\<close>

definition port_pins :: "char \<Rightarrow> (uint \<times> uint) option" where
  "port_pins c =
     (if c = CHR ''1'' then Some (1, 2)
      else if c = CHR ''2'' then Some (3, 4)
      else if c = CHR ''3'' then Some (5, 6)
      else if c = CHR ''4'' then Some (7, 8)
      else if c = CHR ''5'' then Some (9, 10)
      else if c = CHR ''6'' then Some (11, 12)
      else if c = CHR ''7'' then Some (13, 14)
      else if c = CHR ''8'' then Some (15, 16)
      else if c = CHR ''9'' then Some (17, 18)
      else if c = CHR ''0'' then Some (19, 20)
      else None)"

text \<open>
  After the switch: \<open>PinMode(atoi(port_str) - 10, DIO)\<close>, its result dropped, then
  \<open>DigitalWrite(pin_map_num, value_num)\<close>. Each case of the switch assigns \<open>pin_map_num\<close>
  by \<open>if (2 == pin_num) .. = CNxx_2; if (4 == pin_num) .. = CNxx_4;\<close>, so it holds the
  second pin when the pin component reads 4, the first when it reads 2, and is used
  uninitialised otherwise.
\<close>

definition RpcPinWrite_apply ::
    "int \<Rightarrow> uint \<times> uint \<Rightarrow> int \<Rightarrow> int \<Rightarrow> world \<Rightarrow> int outcome" where
  "RpcPinWrite_apply port pins pin_num value_num w =
     (case PinMode (of_int (port - 10)) DIO w of
        Undefined \<Rightarrow> Undefined
      | Exit s w1 \<Rightarrow> Exit s w1
      | Return r w1 \<Rightarrow>
          if 4 = pin_num then DigitalWrite (snd pins) value_num w1
          else if 2 = pin_num then DigitalWrite (fst pins) value_num w1
          else Undefined)"

text \<open>
  The second \<open>strtok\<close> result is advanced by \<open>strlen("cn")\<close> and the third passed to
  \<open>atoi\<close> without a NULL check: a name with fewer than three components has no defined
  behaviour, and so has a NULL value.
\<close>

definition RpcPinWrite :: "string option \<Rightarrow> string option \<Rightarrow> world \<Rightarrow> int outcome" where
  "RpcPinWrite param val w =
     (case param of None \<Rightarrow> Return (- 1) w | Some p0 \<Rightarrow>
        (let p = cstr p0
         in if p = [] \<or> hd p = CHR ''g'' then Return (- 1) w
            else case val of None \<Rightarrow> Undefined | Some v0 \<Rightarrow>
              (case atoi (cstr v0) of None \<Rightarrow> Undefined | Some value_num \<Rightarrow>
                 if 0 \<noteq> value_num \<and> 1 \<noteq> value_num then Return (- 1) w
                 else
                   (case strtok_dot (p @ [NUL]) 0 of
                      (None, buf1, s1) \<Rightarrow> Return (- 1) w
                    | (Some t1, buf1, s1) \<Rightarrow>
                        (case strtok_dot buf1 s1 of
                           (None, buf2, s2) \<Rightarrow> Undefined
                         | (Some t2, buf2, s2) \<Rightarrow>
                             (let port_str = t2 + 2
                              in case strtok_dot buf2 s2 of
                                   (None, buf3, s3) \<Rightarrow> Undefined
                                 | (Some pin_str, buf3, s3) \<Rightarrow>
                                     (case atoi (str_at buf3 pin_str) of
                                        None \<Rightarrow> Undefined
                                      | Some pin_num \<Rightarrow>
                                          if port_str + 1 \<ge> length buf3 then Undefined
                                          else
                                            (case port_pins (buf3 ! (port_str + 1)) of
                                               None \<Rightarrow> Return (- 1) w
                                             | Some pins \<Rightarrow>
                                                 (case atoi (str_at buf3 port_str) of
                                                    None \<Rightarrow> Undefined
                                                  | Some port \<Rightarrow>
                                                      RpcPinWrite_apply port pins pin_num
                                                        value_num w)))))))))"

section \<open>Notions used to state the properties\<close>

text \<open>The state a call leaves behind, when it leaves one.\<close>

definition world_of :: "'a outcome \<Rightarrow> world option" where
  "world_of r = (case r of Return a w \<Rightarrow> Some w | Exit s w \<Rightarrow> Some w | Undefined \<Rightarrow> None)"

text \<open>A board on which every select line reads back the level driven onto it.\<close>

definition latches :: "world \<Rightarrow> bool" where
  "latches w = (\<forall>k drv. readback w k drv = drv)"

text \<open>The mode value the k-th sample of the select lines forms.\<close>

definition sensed :: "world \<Rightarrow> nat \<Rightarrow> int" where
  "sensed w k = mode_of_levels (\<lambda>p. of_bool (readback w k (gpio_level w) p))"

text \<open>The state after one \<open>GetShieldMode\<close> call.\<close>

definition sampled :: "world \<Rightarrow> world" where
  "sampled w =
     w\<lparr>samples := samples w + 1, trace := trace w @ [Gpio_lev_sample (sensed w (samples w))]\<rparr>"

fun is_spi :: "event \<Rightarrow> bool" where
  "is_spi (Spi_writenb bs) = True"
| "is_spi (Spi_transfer b) = True"
| "is_spi (Spi_transfern bs) = True"
| "is_spi _ = False"

text \<open>
  The bus rests in NONE and was verified there: the select lines are driven to 1110000
  and the last external call is a sample of the lines that read NONE.
\<close>

definition idle_verified :: "world \<Rightarrow> bool" where
  "idle_verified w =
     (pattern w = [True, True, True, False, False, False, False]
      \<and> trace w \<noteq> [] \<and> last (trace w) = Gpio_lev_sample NONE)"

text \<open>A byte pair as the 16-bit register it is transmitted as, element 0 first.\<close>

definition reg16 :: "u8 \<times> u8 \<Rightarrow> 16 word" where
  "reg16 r = push_bit 8 (ucast (fst r)) OR ucast (snd r)"

text \<open>
  The state at program start, from the initialisers of shield.c, on a board that latches
  and a serial link that clocks in zeros; and the same with all select lines stuck low.
\<close>

definition initial_world :: world where
  "initial_world =
     \<lparr>internalRegister = (0xFF, 0xFF), outputRegister1 = (0x00, 0x00),
      outputRegister2 = (0x00, 0x00), spi_delay_usecs = 0, gpio_delay_usecs = 500,
      gpio_level = (\<lambda>p. False), readback = (\<lambda>k drv. drv), samples = 0,
      miso = (\<lambda>n. 0), spi_count = 0, rebootcount = 0, trace = []\<rparr>"

definition wedged_world :: world where
  "wedged_world = initial_world\<lparr>readback := (\<lambda>k drv p. False)\<rparr>"

text \<open>The mode assignments PinMode takes for a segment.\<close>

definition accepts :: "uint \<Rightarrow> int \<Rightarrow> bool" where
  "accepts seg mode = ((mode \<noteq> SPI \<or> seg \<le> 8) \<and> (mode \<noteq> SIO \<or> seg = 10))"

text \<open>Between two states, something was sent or received on the serial link.\<close>

definition exchanged :: "world \<Rightarrow> world \<Rightarrow> bool" where
  "exchanged w w' = (length (filter is_spi (trace w)) < length (filter is_spi (trace w')))"

text \<open>The state in which AnalogRead has its two bytes.\<close>

definition AnalogRead_read :: "uint \<Rightarrow> world \<Rightarrow> world" where
  "AnalogRead_read port_num w =
     usleep (spi_delay_usecs w) (snd (bcm2835_spi_transfern2 (0, 0)
       (usleep (spi_delay_usecs w)
         (bcm2835_spi_transfer (adcConversion ! unat port_num) (SetShieldMode ADC w)))))"

text \<open>The initial state with a serial link that clocks in 0xFF, 0x1F, 0xFF, 0xFF, ...\<close>

definition overflow_world :: world where
  "overflow_world = initial_world\<lparr>miso := (\<lambda>n. if n = 1 then 0x1F else 0xFF)\<rparr>"

text \<open>The value a call returns, when it returns.\<close>

definition value_of :: "'a outcome \<Rightarrow> 'a option" where
  "value_of r = (case r of Return a w \<Rightarrow> Some a | Exit s w \<Rightarrow> None | Undefined \<Rightarrow> None)"

text \<open>The state in which AnalogWrite goes back to NONE.\<close>

definition AnalogWrite_sent :: "(nat \<Rightarrow> u8 \<times> u8) \<Rightarrow> uint \<Rightarrow> uint \<Rightarrow> world \<Rightarrow> world" where
  "AnalogWrite_sent dac_bytes adc_addr mv_value w =
     (let mv = (if mv_value > 2230 then 2230 else mv_value);
          addr = (if adc_addr > 1 then 1 else adc_addr);
          d = spi_delay_usecs w
      in usleep d (bcm2835_spi_writenb
           [0x30 + ucast addr, fst (dac_bytes (unat mv)), snd (dac_bytes (unat mv))]
           (SetShieldMode DAC (usleep d (snd (bcm2835_spi_transfern2 (0, 0)
             (usleep d (bcm2835_spi_writenb [0x30]
               (usleep d (bcm2835_spi_writenb [0x30] (SetShieldMode ADC w)))))))))))"

text \<open>The initial state with every segment set to DIO in the internal register.\<close>

definition all_dio_world :: world where
  "all_dio_world = initial_world\<lparr>internalRegister := (0x00, 0x00)\<rparr>"

text \<open>
  A component of a dotted parameter name: not empty, with no dot and no NUL in it.
\<close>

definition component :: "string \<Rightarrow> bool" where
  "component s = (s \<noteq> [] \<and> CHR ''.'' \<notin> set s \<and> NUL \<notin> set s)"

section \<open>Basic facts\<close>

lemmas mode_defs = INIT_ALL_LOW_def NONE_def INTERNAL_REG_def OUTPUT_REG_1_def OUTPUT_REG_2_def
  INPUT_REG_def DAC_def RTC_def ADC_def

lemmas prim_defs = run_def emit_def bcm2835_gpio_fsel_def bcm2835_gpio_write_def usleep_def
  bcm2835_spi_writenb_def bcm2835_spi_transfer_def bcm2835_spi_transfern2_def HIGH_def LOW_def

lemma SetShieldMode_frame [simp]:
  "internalRegister (SetShieldMode m w) = internalRegister w"
  "outputRegister1 (SetShieldMode m w) = outputRegister1 w"
  "outputRegister2 (SetShieldMode m w) = outputRegister2 w"
  "readback (SetShieldMode m w) = readback w"
  "samples (SetShieldMode m w) = samples w"
  "miso (SetShieldMode m w) = miso w"
  "spi_count (SetShieldMode m w) = spi_count w"
  "rebootcount (SetShieldMode m w) = rebootcount w"
  "spi_delay_usecs (SetShieldMode m w) = spi_delay_usecs w"
  "gpio_delay_usecs (SetShieldMode m w) = gpio_delay_usecs w"
  by (simp_all add: SetShieldMode_def prim_defs Let_def)

lemma SetShieldMode_spi [simp]:
  "filter is_spi (trace (SetShieldMode m w)) = filter is_spi (trace w)"
  by (simp add: SetShieldMode_def prim_defs Let_def)

lemma SetShieldMode_trace_nonempty [simp]: "trace (SetShieldMode m w) \<noteq> []"
  by (simp add: SetShieldMode_def prim_defs Let_def)

lemma pattern_SetShieldMode:
  "m \<in> set ShieldModes \<Longrightarrow> pattern (SetShieldMode m w) = map (bit m) [6, 5, 4, 3, 2, 1, 0]"
  by (auto simp add: ShieldModes_def SetShieldMode_def prim_defs Let_def pattern_def mode_defs)

lemma mode_of_levels_SetShieldMode:
  "m \<in> set ShieldModes \<Longrightarrow>
     mode_of_levels (\<lambda>p. of_bool (gpio_level (SetShieldMode m w) p)) = m"
  by (auto simp add: ShieldModes_def SetShieldMode_def prim_defs Let_def mode_of_levels_def mode_defs)

lemma sampled_simps [simp]:
  "internalRegister (sampled w) = internalRegister w"
  "outputRegister1 (sampled w) = outputRegister1 w"
  "outputRegister2 (sampled w) = outputRegister2 w"
  "gpio_level (sampled w) = gpio_level w"
  "readback (sampled w) = readback w"
  "samples (sampled w) = samples w + 1"
  "miso (sampled w) = miso w"
  "spi_count (sampled w) = spi_count w"
  "rebootcount (sampled w) = rebootcount w"
  "trace (sampled w) = trace w @ [Gpio_lev_sample (sensed w (samples w))]"
  "sensed (sampled w) k = sensed w k"
  by (simp_all add: sampled_def sensed_def)

lemma GetShieldMode_eq: "GetShieldMode w = (sensed w (samples w), sampled w)"
  by (simp add: GetShieldMode_def sensed_def bcm2835_gpio_lev_def Let_def emit_def sampled_def)

lemma sensed_latches:
  "latches w \<Longrightarrow> m \<in> set ShieldModes \<Longrightarrow> sensed (SetShieldMode m w) k = m"
  by (simp add: sensed_def latches_def mode_of_levels_SetShieldMode)

lemma verify_loop_unfold:
  "verify_loop mode sc w =
     (if sensed w (samples w) \<noteq> mode then
        (if sc > MAX_SAMPLING_RETRY_TIME then escalate (sampled w)
         else verify_loop mode (sc + 1) (sampled w))
      else Return () (sampled w))"
  by (subst verify_loop.simps) (simp add: GetShieldMode_eq)

lemma escalate_eq:
  "escalate w =
     Exit 0 (w\<lparr>rebootcount := (if rebootcount w > 3 then 0 else rebootcount w + 1),
              trace := trace w @ Get_param #
                (if rebootcount w > 3 then [Set_param 0, Spi_end, Bcm_close]
                 else [Set_param (rebootcount w + 1), System ''sudo reboot''])\<rparr>)"
  by (simp add: escalate_def GetParamInt_rebootcount_def SetParam_rebootcount_def
        ShieldLibClose_def system_def emit_def MAX_REBOOT_RETRY_TIME_def)

lemma pattern_determines_mode:
  "pattern w1 = pattern w2 \<Longrightarrow>
     mode_of_levels (\<lambda>p. of_bool (gpio_level w1 p)) = mode_of_levels (\<lambda>p. of_bool (gpio_level w2 p))"
  by (simp add: pattern_def mode_of_levels_def)

lemma bits_of_modes:
  "m \<in> set ShieldModes \<Longrightarrow> m \<noteq> INIT_ALL_LOW \<Longrightarrow> m \<noteq> NONE \<Longrightarrow>
     take 4 (map (bit m) [6, 5, 4, 3, 2, 1, 0]) = [True, True, True, True]"
  by (auto simp: ShieldModes_def mode_defs)

lemma latches_initial: "latches initial_world"
  by (simp add: latches_def initial_world_def)

lemma sensed_wedged: "sensed (wedged_world\<lparr>rebootcount := c\<rparr>) k = 0"
  by (simp add: sensed_def wedged_world_def initial_world_def mode_of_levels_def)

section \<open>Mode verifier: a mode that is never sensed\<close>

text \<open>
  C1 (as amended). When every sample of the select lines differs from the requested
  mode, \<open>VerifyAndFixShieldMode\<close> samples the lines exactly four times (the first sample
  and \<open>MAX_SAMPLING_RETRY_TIME = 3\<close> further ones), then reads the persisted reboot counter.
  If the counter exceeds 3 it stores 0, closes the library and exits, with no reboot
  command; otherwise it stores the counter plus one and runs "sudo reboot" before exiting.
  In both cases the call ends in \<open>exit\<close>, never in a return.
\<close>

theorem VerifyAndFix_never_matches:
  assumes "\<forall>k. sensed w k \<noteq> mode"
  shows "VerifyAndFixShieldMode mode w =
     Exit 0 (w\<lparr>samples := samples w + 4,
              rebootcount := (if rebootcount w > 3 then 0 else rebootcount w + 1),
              trace := trace w
                @ map (\<lambda>k. Gpio_lev_sample (sensed w (samples w + k))) [0, 1, 2, 3]
                @ Get_param #
                  (if rebootcount w > 3 then [Set_param 0, Spi_end, Bcm_close]
                   else [Set_param (rebootcount w + 1), System ''sudo reboot''])\<rparr>)"
proof -
  have step: "verify_loop mode sc v =
      (if sc > 3 then escalate (sampled v) else verify_loop mode (sc + 1) (sampled v))"
    if "\<forall>k. sensed v k \<noteq> mode" for sc v
    using that by (subst verify_loop_unfold) (simp add: MAX_SAMPLING_RETRY_TIME_def)
  have s1: "\<forall>k. sensed (sampled w) k \<noteq> mode" using assms by simp
  have s2: "\<forall>k. sensed (sampled (sampled w)) k \<noteq> mode" using assms by simp
  have s3: "\<forall>k. sensed (sampled (sampled (sampled w))) k \<noteq> mode" using assms by simp
  have "VerifyAndFixShieldMode mode w = escalate (sampled (sampled (sampled (sampled w))))"
    by (simp add: VerifyAndFixShieldMode_def step [OF assms] step [OF s1] step [OF s2] step [OF s3])
  then show ?thesis
    by (simp add: escalate_eq sampled_def sensed_def eval_nat_numeral)
qed

text \<open>
  The theorem at a board whose lines are stuck low, requested mode NONE: with the counter
  at 2 the counter is stored as 3 and the reboot issued, with the counter at 4 it is reset
  and no reboot is issued.
\<close>

theorem VerifyAndFix_never_matches_witness:
  "(\<forall>k. sensed (wedged_world\<lparr>rebootcount := 2\<rparr>) k \<noteq> NONE)
   \<and> VerifyAndFixShieldMode NONE (wedged_world\<lparr>rebootcount := 2\<rparr>) =
       Exit 0 (wedged_world\<lparr>samples := 4, rebootcount := 3,
         trace := [Gpio_lev_sample 0, Gpio_lev_sample 0, Gpio_lev_sample 0, Gpio_lev_sample 0,
                   Get_param, Set_param 3, System ''sudo reboot'']\<rparr>)
   \<and> VerifyAndFixShieldMode NONE (wedged_world\<lparr>rebootcount := 4\<rparr>) =
       Exit 0 (wedged_world\<lparr>samples := 4, rebootcount := 0,
         trace := [Gpio_lev_sample 0, Gpio_lev_sample 0, Gpio_lev_sample 0, Gpio_lev_sample 0,
                   Get_param, Set_param 0, Spi_end, Bcm_close]\<rparr>)"
proof -
  have h: "\<forall>k. sensed (wedged_world\<lparr>rebootcount := c\<rparr>) k \<noteq> NONE" for c
    by (simp add: sensed_wedged NONE_def)
  show ?thesis
    using h [of 2] VerifyAndFix_never_matches [OF h [of 2]] VerifyAndFix_never_matches [OF h [of 4]]
    by (simp add: sensed_wedged) (simp add: wedged_world_def initial_world_def)
qed

text \<open>
  The claim as written has three samples. On the stuck-low board, starting from no
  samples, the call has taken four when it ends.
\<close>

theorem VerifyAndFix_three_polls_counterexample:
  "map_option samples (world_of (VerifyAndFixShieldMode NONE wedged_world)) = Some 4"
proof -
  have s: "sensed wedged_world k = 0" for k
    by (simp add: sensed_def wedged_world_def initial_world_def mode_of_levels_def)
  have "samples wedged_world = 0" by (simp add: wedged_world_def initial_world_def)
  then show ?thesis
    by (simp add: VerifyAndFixShieldMode_def verify_loop_unfold [of _ 1] verify_loop_unfold [of _ 2]
        verify_loop_unfold [of _ 3] verify_loop_unfold [of _ 4] s NONE_def
        MAX_SAMPLING_RETRY_TIME_def escalate_eq world_of_def)
qed


section \<open>Mode selector: patterns and read-back\<close>

text \<open>
  C2 (as amended). For each of the nine \<open>ShieldMode\<close> values, \<open>SetShieldMode\<close> drives the
  seven select lines (GPIO_GEN6 first) to the binary digits of the mode's code. The
  pattern is in the 1111xxx family for every mode except INIT_ALL_LOW, which is 0000000,
  and NONE, which is 1110000. No two modes share a pattern, and on a board that latches
  a following \<open>GetShieldMode\<close> returns the mode's code.
\<close>

theorem SetShieldMode_round_trip:
  assumes "m \<in> set ShieldModes" and "latches w"
  shows "pattern (SetShieldMode m w) = map (bit m) [6, 5, 4, 3, 2, 1, 0]
     \<and> (m \<noteq> INIT_ALL_LOW \<and> m \<noteq> NONE \<longrightarrow>
          take 4 (pattern (SetShieldMode m w)) = [True, True, True, True])
     \<and> (m = NONE \<longrightarrow>
          pattern (SetShieldMode m w) = [True, True, True, False, False, False, False])
     \<and> (m = INIT_ALL_LOW \<longrightarrow>
          pattern (SetShieldMode m w) = [False, False, False, False, False, False, False])
     \<and> (\<forall>m' \<in> set ShieldModes.
          pattern (SetShieldMode m' w) = pattern (SetShieldMode m w) \<longrightarrow> m' = m)
     \<and> fst (GetShieldMode (SetShieldMode m w)) = m"
proof -
  have p: "pattern (SetShieldMode m w) = map (bit m) [6, 5, 4, 3, 2, 1, 0]"
    by (rule pattern_SetShieldMode [OF assms(1)])
  have u: "m' = m"
    if "m' \<in> set ShieldModes" "pattern (SetShieldMode m' w) = pattern (SetShieldMode m w)" for m'
    using pattern_determines_mode [OF that(2)] that(1) assms(1)
    by (simp add: mode_of_levels_SetShieldMode)
  have g: "fst (GetShieldMode (SetShieldMode m w)) = m"
    using assms by (simp add: GetShieldMode_eq sensed_latches)
  have n: "m = NONE \<longrightarrow>
      pattern (SetShieldMode m w) = [True, True, True, False, False, False, False]"
    unfolding p by (simp add: NONE_def)
  have z: "m = INIT_ALL_LOW \<longrightarrow>
      pattern (SetShieldMode m w) = [False, False, False, False, False, False, False]"
    unfolding p by (simp add: INIT_ALL_LOW_def)
  have f: "m \<noteq> INIT_ALL_LOW \<and> m \<noteq> NONE \<longrightarrow>
      take 4 (pattern (SetShieldMode m w)) = [True, True, True, True]"
    unfolding p using bits_of_modes [OF assms(1)] by blast
  from u have u': "\<forall>m' \<in> set ShieldModes.
      pattern (SetShieldMode m' w) = pattern (SetShieldMode m w) \<longrightarrow> m' = m"
    by blast
  from p f n z u' g show ?thesis by blast
qed

text \<open>The theorem at INPUT_REG (0x7B), from the initial state.\<close>

theorem SetShieldMode_round_trip_witness:
  "INPUT_REG \<in> set ShieldModes \<and> latches initial_world
   \<and> pattern (SetShieldMode INPUT_REG initial_world) = [True, True, True, True, False, True, True]
   \<and> fst (GetShieldMode (SetShieldMode INPUT_REG initial_world)) = 0x7B"
proof -
  have m: "INPUT_REG \<in> set ShieldModes" by (simp add: ShieldModes_def)
  have b: "map (bit INPUT_REG) [6, 5, 4, 3, 2, 1, 0] = [True, True, True, True, False, True, True]"
    by (simp add: INPUT_REG_def)
  from SetShieldMode_round_trip [OF m latches_initial] m latches_initial b
  show ?thesis by (simp add: INPUT_REG_def)
qed

text \<open>
  The claim as written puts every mode but INIT_ALL_LOW in the 1111xxx family: NONE is a
  mode, is not INIT_ALL_LOW, and its fourth line (GPIO_GEN3) is driven low.
\<close>

theorem SetShieldMode_NONE_counterexample:
  "NONE \<in> set ShieldModes \<and> NONE \<noteq> INIT_ALL_LOW
   \<and> take 4 (pattern (SetShieldMode NONE initial_world)) \<noteq> [True, True, True, True]"
  by (simp add: ShieldModes_def mode_defs SetShieldMode_def prim_defs Let_def pattern_def)


section \<open>Register codec: bits, verification at NONE\<close>

lemma shl1_small: "n < 31 \<Longrightarrow> shl1 n = Some (push_bit (unat n) 1)"
  by (simp add: shl1_def)

lemma or_shl1_bits:
  "n < 31 \<Longrightarrow> \<exists>b. or_shl1 r n = Some b \<and> (\<forall>i. bit b i \<longleftrightarrow> bit r i \<or> (i = unat n \<and> i < 8))"
  by (auto simp add: or_shl1_def shl1_def bit_simps dest: bit_imp_le_length)

lemma and_not_shl1_bits:
  "n < 31 \<Longrightarrow> \<exists>b. and_not_shl1 r n = Some b \<and> (\<forall>i. bit b i \<longleftrightarrow> bit r i \<and> i \<noteq> unat n)"
  by (auto simp add: and_not_shl1_def shl1_def bit_simps dest: bit_imp_le_length)

lemma bit_reg16:
  "bit (reg16 (a, b)) i \<longleftrightarrow> (i < 8 \<and> bit b i) \<or> (8 \<le> i \<and> i < 16 \<and> bit a (i - 8))"
  by (auto simp add: reg16_def bit_simps dest: bit_imp_le_length)

lemma pin_sub:
  fixes pin :: uint
  shows "k \<le> pin \<Longrightarrow> pin \<le> k + 7 \<Longrightarrow> k \<le> 100 \<Longrightarrow>
    pin - k < 31 \<and> unat (pin - k) = unat pin - unat k \<and> unat pin - unat k < 8"
  by unat_arith

lemma latches_SetShieldMode [simp]: "latches (SetShieldMode m w) = latches w"
  by (simp add: latches_def)

lemma NONE_mode [simp]: "NONE \<in> set ShieldModes"
  by (simp add: ShieldModes_def)

lemma pattern_cong: "gpio_level w' = gpio_level w \<Longrightarrow> pattern w' = pattern w"
  by (simp add: pattern_def)

lemma pattern_NONE:
  "pattern (SetShieldMode NONE w) = [True, True, True, False, False, False, False]"
  using pattern_SetShieldMode [of NONE w] by (simp add: ShieldModes_def NONE_def)

lemma world_of_escalate:
  "world_of (escalate w) = Some w' \<Longrightarrow>
     internalRegister w' = internalRegister w \<and> outputRegister1 w' = outputRegister1 w \<and>
     outputRegister2 w' = outputRegister2 w \<and> gpio_level w' = gpio_level w \<and>
     filter is_spi (trace w') = filter is_spi (trace w)"
  by (auto simp: world_of_def escalate_def GetParamInt_rebootcount_def SetParam_rebootcount_def
        ShieldLibClose_def system_def emit_def split: if_splits)

lemma verify_loop_world:
  "world_of (verify_loop mode sc w) = Some w' \<Longrightarrow>
     internalRegister w' = internalRegister w \<and> outputRegister1 w' = outputRegister1 w \<and>
     outputRegister2 w' = outputRegister2 w \<and> gpio_level w' = gpio_level w \<and>
     filter is_spi (trace w') = filter is_spi (trace w)"
proof (induction mode sc w rule: verify_loop.induct)
  case (1 mode sc w)
  show ?case
  proof (cases "sensed w (samples w) = mode")
    case True
    with "1.prems" show ?thesis
      by (subst (asm) verify_loop_unfold) (auto simp: world_of_def)
  next
    case False
    show ?thesis
    proof (cases "sc > MAX_SAMPLING_RETRY_TIME")
      case True
      with False "1.prems" have "world_of (escalate (sampled w)) = Some w'"
        by (subst (asm) verify_loop_unfold) simp
      from world_of_escalate [OF this] show ?thesis by (simp add:)
    next
      case sc: False
      with False "1.prems" have "world_of (verify_loop mode (sc + 1) (sampled w)) = Some w'"
        by (subst (asm) verify_loop_unfold) simp
      with "1.IH" [OF GetShieldMode_eq [symmetric] False sc]
      show ?thesis by simp
    qed
  qed
qed

lemma verify_loop_Return:
  "verify_loop mode sc w = Return u w' \<Longrightarrow>
     trace w' \<noteq> [] \<and> last (trace w') = Gpio_lev_sample mode \<and> samples w < samples w'"
proof (induction mode sc w rule: verify_loop.induct)
  case (1 mode sc w)
  show ?case
  proof (cases "sensed w (samples w) = mode")
    case True
    with "1.prems" show ?thesis
      by (subst (asm) verify_loop_unfold) auto
  next
    case False
    show ?thesis
    proof (cases "sc > MAX_SAMPLING_RETRY_TIME")
      case True
      with False "1.prems" show ?thesis
        by (subst (asm) verify_loop_unfold) (simp add: escalate_def GetParamInt_rebootcount_def split: if_splits)
    next
      case sc: False
      with False "1.prems" have "verify_loop mode (sc + 1) (sampled w) = Return u w'"
        by (subst (asm) verify_loop_unfold) simp
      with "1.IH" [OF GetShieldMode_eq [symmetric] False sc]
      show ?thesis by simp
    qed
  qed
qed


lemma verify_loop_defined: "verify_loop mode sc w \<noteq> Undefined"
proof (induction mode sc w rule: verify_loop.induct)
  case (1 mode sc w)
  show ?case
    using "1.IH" [OF GetShieldMode_eq [symmetric]]
    by (subst verify_loop_unfold) (simp add: escalate_eq)
qed

lemma verify_none_world:
  assumes "world_of (VerifyAndFixShieldMode NONE (SetShieldMode NONE w)) = Some w'"
  shows "internalRegister w' = internalRegister w \<and> outputRegister1 w' = outputRegister1 w
    \<and> outputRegister2 w' = outputRegister2 w
    \<and> filter is_spi (trace w') = filter is_spi (trace w)
    \<and> pattern w' = [True, True, True, False, False, False, False]"
  using verify_loop_world [OF assms [unfolded VerifyAndFixShieldMode_def]]
    pattern_cong [of w' "SetShieldMode NONE w"]
  by (simp add: pattern_NONE)

lemma verify_none_Return:
  assumes "VerifyAndFixShieldMode NONE (SetShieldMode NONE w) = Return u w'"
  shows "idle_verified w'"
proof -
  have "world_of (VerifyAndFixShieldMode NONE (SetShieldMode NONE w)) = Some w'"
    using assms by (simp add: world_of_def)
  from verify_none_world [OF this] verify_loop_Return [OF assms [unfolded VerifyAndFixShieldMode_def]]
  show ?thesis by (simp add: idle_verified_def)
qed

lemma verify_none_latched:
  "latches w \<Longrightarrow>
     VerifyAndFixShieldMode NONE (SetShieldMode NONE w) = Return () (sampled (SetShieldMode NONE w))"
  by (simp add: VerifyAndFixShieldMode_def verify_loop_unfold sensed_latches)

lemma force_none_fail_world:
  "world_of (force_none_fail w) = Some w' \<Longrightarrow>
     internalRegister w' = internalRegister w \<and> outputRegister1 w' = outputRegister1 w
     \<and> outputRegister2 w' = outputRegister2 w
     \<and> filter is_spi (trace w') = filter is_spi (trace w)"
  using verify_none_world [of w w']
  by (cases "VerifyAndFixShieldMode NONE (SetShieldMode NONE w)")
     (simp_all add: force_none_fail_def and_then_def world_of_def)

lemma force_none_fail_Return:
  "force_none_fail w = Return r w' \<Longrightarrow> r = - 1 \<and> idle_verified w'"
  using verify_none_Return [of w _ w']
  by (cases "VerifyAndFixShieldMode NONE (SetShieldMode NONE w)")
     (auto simp add: force_none_fail_def and_then_def)

lemma force_none_fail_latched:
  "latches w \<Longrightarrow> force_none_fail w = Return (- 1) (sampled (SetShieldMode NONE w))"
  by (simp add: force_none_fail_def and_then_def verify_none_latched)

lemma PinMode_transmit_eq:
  "\<exists>w'. PinMode_transmit w = Return 0 w' \<and> internalRegister w' = internalRegister w
     \<and> samples w' = samples w
     \<and> pattern w' = [True, True, True, True, False, False, False]
     \<and> filter is_spi (trace w') =
         filter is_spi (trace w) @ [Spi_writenb [fst (internalRegister w), snd (internalRegister w)]]
     \<and> last (trace w') = Usleep (spi_delay_usecs w)"
proof -
  have "pattern (SetShieldMode INTERNAL_REG w) = [True, True, True, True, False, False, False]"
    using pattern_SetShieldMode [of INTERNAL_REG w] by (simp add: ShieldModes_def INTERNAL_REG_def)
  then show ?thesis
    by (simp add: PinMode_transmit_def Let_def usleep_def bcm2835_spi_writenb_def emit_def pattern_def)
qed

lemma PinMode_accepted:
  assumes "1 \<le> seg" "seg \<le> 10" "mode \<in> {DIO, SPI, SIO}" "accepts seg mode"
  shows "\<exists>r. PinMode seg mode w = PinMode_transmit (w\<lparr>internalRegister := r\<rparr>)"
proof -
  have r: "\<not> (seg > 10 \<or> seg < 1)" using assms(1,2) by unat_arith
  have s1: "seg - 1 < 31" using assms(1,2) by unat_arith
  have s9: "\<not> seg < 9 \<Longrightarrow> seg - 9 < 31" using assms(1,2) by unat_arith
  have le8: "seg \<le> 8 \<longleftrightarrow> seg < 9" by unat_arith
  from assms(3) consider "mode = DIO" | "mode = SPI" | "mode = SIO" by blast
  then show ?thesis
  proof cases
    case 1
    show ?thesis
    proof (cases "seg < 9")
      case True
      from and_not_shl1_bits [OF s1, of "snd (internalRegister w)"] 1 r True show ?thesis
        by (auto simp add: PinMode_def simp del: split_paired_Ex)
    next
      case False
      from and_not_shl1_bits [OF s9 [OF False], of "fst (internalRegister w)"] 1 r False show ?thesis
        by (auto simp add: PinMode_def simp del: split_paired_Ex)
    qed
  next
    case 2
    with assms(4) have "seg < 9" by (simp add: accepts_def le8)
    with or_shl1_bits [OF s1, of "snd (internalRegister w)"] 2 r show ?thesis
      by (auto simp add: PinMode_def DIO_def SPI_def simp del: split_paired_Ex)
  next
    case 3
    with assms(4) have "seg = 10" by (simp add: accepts_def SPI_def SIO_def)
    with or_shl1_bits [OF s1, of "fst (internalRegister w)"] 3 r show ?thesis
      by (auto simp add: PinMode_def DIO_def SPI_def SIO_def simp del: split_paired_Ex)
  qed
qed

lemma PinMode_rejected:
  assumes "1 \<le> seg" "seg \<le> 10" "mode \<in> {DIO, SPI, SIO}" "\<not> accepts seg mode"
  shows "PinMode seg mode w = force_none_fail w"
proof -
  have r: "\<not> (seg > 10 \<or> seg < 1)" using assms(1,2) by unat_arith
  have le8: "seg \<le> 8 \<longleftrightarrow> seg < 9" by unat_arith
  from assms(3,4) r show ?thesis
    by (auto simp add: PinMode_def accepts_def le8 DIO_def SPI_def SIO_def)
qed

lemma idle_verified_sampled_NONE:
  "latches w \<Longrightarrow> idle_verified (sampled (SetShieldMode NONE w))"
  by (simp add: idle_verified_def pattern_def sensed_latches)
     (simp add: pattern_NONE [unfolded pattern_def, simplified])

section \<open>PinMode: which assignments are accepted\<close>

text \<open>
  C3. For segments 1 to 10 and modes DIO, SPI, SIO, \<open>PinMode\<close> accepts the assignment
  (returns 0) if and only if (mode is not SPI or segment is at most 8) and (mode is not
  SIO or segment is 10). On every rejected combination \<open>internalRegister\<close> is left as it
  was and nothing is sent on the serial link, whether the call returns or the verifier
  ends the process; a return is a return of -1 with the select lines at NONE and
  verified; and on a board that latches the call does return.
\<close>

theorem PinMode_accepts_iff:
  assumes "1 \<le> seg" and "seg \<le> 10" and "mode \<in> {DIO, SPI, SIO}"
  shows "((\<exists>w'. PinMode seg mode w = Return 0 w') \<longleftrightarrow>
            (mode \<noteq> SPI \<or> seg \<le> 8) \<and> (mode \<noteq> SIO \<or> seg = 10))
     \<and> (\<not> ((mode \<noteq> SPI \<or> seg \<le> 8) \<and> (mode \<noteq> SIO \<or> seg = 10)) \<longrightarrow>
          (\<forall>w'. world_of (PinMode seg mode w) = Some w' \<longrightarrow>
              internalRegister w' = internalRegister w
              \<and> filter is_spi (trace w') = filter is_spi (trace w))
          \<and> (\<forall>r w'. PinMode seg mode w = Return r w' \<longrightarrow> r = - 1 \<and> idle_verified w')
          \<and> (latches w \<longrightarrow> (\<exists>w'. PinMode seg mode w = Return (- 1) w')))"
proof (cases "accepts seg mode")
  case True
  from PinMode_accepted [OF assms True, of w] obtain r where
    "PinMode seg mode w = PinMode_transmit (w\<lparr>internalRegister := r\<rparr>)" ..
  with PinMode_transmit_eq [of "w\<lparr>internalRegister := r\<rparr>"]
  have "\<exists>w'. PinMode seg mode w = Return 0 w'" by auto
  with True show ?thesis by (simp add: accepts_def)
next
  case False
  have eq: "PinMode seg mode w = force_none_fail w"
    by (rule PinMode_rejected [OF assms False])
  have "\<not> (\<exists>w'. PinMode seg mode w = Return 0 w')"
    using force_none_fail_Return [of w 0] by (auto simp add: eq)
  with False show ?thesis
    unfolding eq accepts_def
    using force_none_fail_world [of w] force_none_fail_Return [of w] force_none_fail_latched [of w]
    by blast
qed

text \<open>The theorem at SPI on segment 9, from the initial state.\<close>

theorem PinMode_accepts_iff_witness:
  "(1::uint) \<le> 9 \<and> (9::uint) \<le> 10 \<and> SPI \<in> {DIO, SPI, SIO} \<and> latches initial_world
   \<and> \<not> ((SPI \<noteq> SPI \<or> (9::uint) \<le> 8) \<and> (SPI \<noteq> SIO \<or> (9::uint) = 10))
   \<and> (\<exists>w'. PinMode 9 SPI initial_world = Return (- 1) w'
         \<and> internalRegister w' = (0xFF, 0xFF) \<and> idle_verified w')
   \<and> \<not> (\<exists>w'. PinMode 9 SPI initial_world = Return 0 w')"
proof -
  have h: "(1::uint) \<le> 9" "(9::uint) \<le> 10" "SPI \<in> {DIO, SPI, SIO}" by simp_all
  have n: "\<not> ((SPI \<noteq> SPI \<or> (9::uint) \<le> 8) \<and> (SPI \<noteq> SIO \<or> (9::uint) = 10))" by simp
  note t = PinMode_accepts_iff [OF h, of initial_world]
  note rej = t [THEN conjunct2, THEN mp, OF n]
  from rej [THEN conjunct2, THEN conjunct2, THEN mp, OF latches_initial]
  obtain w' where r: "PinMode 9 SPI initial_world = Return (- 1) w'" ..
  from rej [THEN conjunct1] r have "internalRegister w' = internalRegister initial_world"
    by (simp add: world_of_def)
  then have i: "internalRegister w' = (0xFF, 0xFF)" by (simp add: initial_world_def)
  from rej [THEN conjunct2, THEN conjunct1] r have v: "idle_verified w'" by blast
  from t [THEN conjunct1] n have d: "\<not> (\<exists>w'. PinMode 9 SPI initial_world = Return 0 w')"
    by blast
  from r i v have "\<exists>w'. PinMode 9 SPI initial_world = Return (- 1) w'
         \<and> internalRegister w' = (0xFF, 0xFF) \<and> idle_verified w'" by blast
  with h n latches_initial d show ?thesis by blast
qed


section \<open>DigitalWrite and DigitalRead\<close>

lemma and_then_Return:
  "and_then x f = Return r w' \<longleftrightarrow> (\<exists>a w1. x = Return a w1 \<and> f a w1 = Return r w')"
  by (cases x) (simp_all add: and_then_def)

lemma world_of_Return [simp]: "world_of (Return a w) = Some w"
  by (simp add: world_of_def)

text \<open>Ending a call by going back to NONE, verifying, and returning a value.\<close>

lemma finish_Return:
  assumes "and_then (VerifyAndFixShieldMode NONE (SetShieldMode NONE v)) (\<lambda>_ w'. Return r0 w')
             = Return r w'"
  shows "r = r0 \<and> idle_verified w' \<and> internalRegister w' = internalRegister v
    \<and> outputRegister1 w' = outputRegister1 v \<and> outputRegister2 w' = outputRegister2 v
    \<and> filter is_spi (trace w') = filter is_spi (trace v)"
proof -
  from assms obtain u where u: "VerifyAndFixShieldMode NONE (SetShieldMode NONE v) = Return u w'"
    and r: "r = r0" by (auto simp add: and_then_Return)
  from u have "world_of (VerifyAndFixShieldMode NONE (SetShieldMode NONE v)) = Some w'" by simp
  from verify_none_world [OF this] verify_none_Return [OF u] r show ?thesis by simp
qed

lemma finish_latched:
  "latches v \<Longrightarrow>
     and_then (VerifyAndFixShieldMode NONE (SetShieldMode NONE v)) (\<lambda>_ w'. Return r0 w')
       = Return r0 (sampled (SetShieldMode NONE v))"
  by (simp add: verify_none_latched and_then_def)

lemma latches_prims [simp]:
  "latches (usleep n w) = latches w"
  "latches (bcm2835_spi_writenb bs w) = latches w"
  "latches (bcm2835_spi_transfer b w) = latches w"
  "latches (snd (bcm2835_spi_transfern2 buf w)) = latches w"
  "latches (w\<lparr>outputRegister1 := r1\<rparr>) = latches w"
  "latches (w\<lparr>outputRegister2 := r2\<rparr>) = latches w"
  "latches (w\<lparr>internalRegister := r3\<rparr>) = latches w"
  by (simp_all add: latches_def prim_defs)

lemma DigitalWrite_transmit_Return:
  assumes "DigitalWrite_transmit m reg v = Return r w'"
  shows "r = 0 \<and> idle_verified w' \<and> outputRegister1 w' = outputRegister1 v
    \<and> outputRegister2 w' = outputRegister2 v
    \<and> filter is_spi (trace w') =
        filter is_spi (trace v) @ [Spi_writenb [fst (reg (SetShieldMode m v)), snd (reg (SetShieldMode m v))]]"
  using finish_Return [OF assms [unfolded DigitalWrite_transmit_def Let_def]]
  by (simp add: usleep_def bcm2835_spi_writenb_def emit_def)

lemma DigitalWrite_transmit_latched:
  "latches v \<Longrightarrow> \<exists>w'. DigitalWrite_transmit m reg v = Return 0 w'"
  by (simp add: DigitalWrite_transmit_def Let_def finish_latched)

lemma pin_ranges:
  fixes pin :: uint
  assumes "1 \<le> pin" "pin \<le> 20"
  shows "pin \<le> 8 \<Longrightarrow> pin - 1 < 31 \<and> unat (pin - 1) = unat pin - 1 \<and> unat pin - 1 < 8"
    and "\<not> pin \<le> 8 \<Longrightarrow> pin \<le> 16 \<Longrightarrow>
          9 \<le> pin \<and> pin - 9 < 31 \<and> unat (pin - 9) = unat pin - 9 \<and> unat pin - 9 < 8"
    and "\<not> pin \<le> 16 \<Longrightarrow>
          \<not> pin \<le> 8 \<and> 17 \<le> pin \<and> pin - 17 < 31 \<and> unat (pin - 17) = unat pin - 17 \<and> unat pin - 17 < 8"
  using assms by unat_arith+

text \<open>The byte DigitalWrite stores for a level of 0 or 1 at bit position \<open>n\<close> below 31.\<close>

lemma level_bits:
  assumes "n < 31" "level = 0 \<or> level = 1"
  shows "\<exists>b. (if level = HIGH then or_shl1 r n else and_not_shl1 r n) = Some b
     \<and> (\<forall>i. bit b i \<longleftrightarrow> (if i = unat n \<and> i < 8 then level = 1 else bit r i))"
proof (cases "level = 1")
  case True
  with or_shl1_bits [OF assms(1), of r] show ?thesis by (auto simp add: HIGH_def)
next
  case False
  with assms(2) have "level = 0" by simp
  moreover have "i < 8" if "bit r i" for i
    using bit_imp_le_length [OF that] by simp
  ultimately show ?thesis
    using and_not_shl1_bits [OF assms(1), of r] by (auto simp add: HIGH_def)
qed

lemma reg16_low_update:
  assumes "\<forall>i. bit b i \<longleftrightarrow> (if i = n \<and> i < 8 then l else bit lo i)" and "n < 8"
  shows "bit (reg16 (hi, b)) i = (if i = n then l else bit (reg16 (hi, lo)) i)"
  using assms by (simp add: bit_reg16)

lemma reg16_high_update:
  assumes "\<forall>i. bit b i \<longleftrightarrow> (if i = n \<and> i < 8 then l else bit hi i)" and "n < 8"
  shows "bit (reg16 (b, lo)) i = (if i = n + 8 then l else bit (reg16 (hi, lo)) i)"
  using assms by (simp add: bit_reg16) auto

lemma DigitalWrite_via_transmit:
  assumes "DigitalWrite pin level w = DigitalWrite_transmit m reg v"
    and "latches v = latches w"
  shows "(\<forall>r w'. DigitalWrite pin level w = Return r w' \<longrightarrow>
            r = 0 \<and> outputRegister1 w' = outputRegister1 v \<and> outputRegister2 w' = outputRegister2 v
            \<and> idle_verified w')
     \<and> (latches w \<longrightarrow> (\<exists>w'. DigitalWrite pin level w = Return 0 w'))"
  unfolding assms(1)
  using DigitalWrite_transmit_Return [of m reg v] DigitalWrite_transmit_latched [of v m reg] assms(2)
  by blast

lemma DigitalWrite_above_20:
  "20 < pin \<Longrightarrow> DigitalWrite pin level w = force_none_fail w"
  by (simp add: DigitalWrite_def) unat_arith

lemma getBit_0: "getBit x 0 = None"
  by (simp add: getBit_def)

lemma latches_emit [simp]: "latches (emit e w) = latches w"
  "latches (w\<lparr>spi_count := c\<rparr>) = latches w"
  by (simp_all add: latches_def emit_def)

lemma DigitalRead_unfold:
  "DigitalRead pin_number w =
     and_then (VerifyAndFixShieldMode NONE (SetShieldMode NONE
        (usleep (spi_delay_usecs w) (snd (bcm2835_spi_transfern2 (0, 0) (SetShieldMode INPUT_REG w))))))
       (\<lambda>_ w5.
          if pin_number \<le> 8 then
            (case getBit (miso w (spi_count w + 1)) pin_number of
               None \<Rightarrow> Undefined | Some b \<Rightarrow> Return b w5)
          else if pin_number \<le> 10 then
            (case getBit (miso w (spi_count w)) (pin_number - 8) of
               None \<Rightarrow> Undefined | Some b \<Rightarrow> Return b w5)
          else Return (- 1) w5)"
  by (simp add: DigitalRead_def Let_def bcm2835_spi_transfern2_def emit_def
        cong: if_cong option.case_cong)

lemma getBit_range:
  "getBit x n = Some b \<Longrightarrow> b = 0 \<or> b = 1"
  by (auto simp add: getBit_def and_one_eq uint_mod_distrib split: if_splits)

lemma DigitalRead_in_range:
  assumes "DigitalRead pin w = Return r w'"
  shows "(pin \<le> 10 \<longrightarrow> r = 0 \<or> r = 1) \<and> (10 < pin \<longrightarrow> r = - 1) \<and> idle_verified w'"
proof -
  from assms obtain u w1 where
    v: "VerifyAndFixShieldMode NONE (SetShieldMode NONE
        (usleep (spi_delay_usecs w) (snd (bcm2835_spi_transfern2 (0, 0) (SetShieldMode INPUT_REG w)))))
        = Return u w1"
    and k: "(if pin \<le> 8 then
            (case getBit (miso w (spi_count w + 1)) pin of
               None \<Rightarrow> Undefined | Some b \<Rightarrow> Return b w1)
          else if pin \<le> 10 then
            (case getBit (miso w (spi_count w)) (pin - 8) of
               None \<Rightarrow> Undefined | Some b \<Rightarrow> Return b w1)
          else Return (- 1) w1) = Return r w'"
    unfolding DigitalRead_unfold and_then_Return by blast
  have w: "w' = w1" using k by (auto split: if_splits option.splits)
  have le: "pin \<le> 8 \<Longrightarrow> pin \<le> 10" "10 < pin \<Longrightarrow> \<not> pin \<le> 8 \<and> \<not> pin \<le> 10" by unat_arith+
  from k le have "(pin \<le> 10 \<longrightarrow> r = 0 \<or> r = 1) \<and> (10 < pin \<longrightarrow> r = - 1)"
    by (auto split: if_splits option.splits dest: getBit_range)
  with verify_none_Return [OF v] w show ?thesis by simp
qed

text \<open>
  C4. For every output pin 1 to 20 and level 0 or 1, when \<open>DigitalWrite\<close> returns it
  returns 0 and, reading each output register as the 16-bit word it is transmitted as,
  the bit of the pin (bit pin - 1 of register 1 for pins 1 to 16, bit pin - 17 of
  register 2 for pins 17 to 20) equals the level while every other bit of both
  registers is as before. On a board that latches the call does return.
\<close>

theorem DigitalWrite_sets_one_bit:
  assumes "1 \<le> pin" and "pin \<le> 20" and "level = 0 \<or> level = 1"
  shows "(\<forall>r w'. DigitalWrite pin level w = Return r w' \<longrightarrow> r = 0
            \<and> (\<forall>i. bit (reg16 (outputRegister1 w')) i =
                  (if pin \<le> 16 \<and> i = unat pin - 1 then level = 1
                   else bit (reg16 (outputRegister1 w)) i))
            \<and> (\<forall>i. bit (reg16 (outputRegister2 w')) i =
                  (if 17 \<le> pin \<and> i = unat pin - 17 then level = 1
                   else bit (reg16 (outputRegister2 w)) i)))
     \<and> (latches w \<longrightarrow> (\<exists>w'. DigitalWrite pin level w = Return 0 w'))"
proof -
  consider (lo) "pin \<le> 8" | (mid) "\<not> pin \<le> 8" "pin \<le> 16" | (hi) "\<not> pin \<le> 16" by blast
  then show ?thesis
  proof cases
    case lo
    note p = pin_ranges(1) [OF assms(1,2) lo]
    from level_bits [OF p [THEN conjunct1] assms(3), of "snd (outputRegister1 w)"]
    obtain b where b: "(if level = HIGH then or_shl1 (snd (outputRegister1 w)) (pin - 1)
          else and_not_shl1 (snd (outputRegister1 w)) (pin - 1)) = Some b"
      and bits: "\<forall>i. bit b i \<longleftrightarrow>
          (if i = unat (pin - 1) \<and> i < 8 then level = 1 else bit (snd (outputRegister1 w)) i)"
      by blast
    let ?v = "w\<lparr>outputRegister1 := (fst (outputRegister1 w), b)\<rparr>"
    have eq: "DigitalWrite pin level w = DigitalWrite_transmit OUTPUT_REG_1 outputRegister1 ?v"
      using lo b by (simp add: DigitalWrite_def)
    have le16: "pin \<le> 16 \<and> \<not> 17 \<le> pin" using lo by unat_arith
    have r1: "bit (reg16 (fst (outputRegister1 w), b)) i =
        (if i = unat (pin - 1) then level = 1 else bit (reg16 (outputRegister1 w)) i)" for i
      using reg16_low_update [OF bits, of "fst (outputRegister1 w)" i] p by simp
    from DigitalWrite_via_transmit [OF eq] r1 le16 p show ?thesis by simp
  next
    case mid
    note p = pin_ranges(2) [OF assms(1,2) mid]
    from level_bits [OF p [THEN conjunct2, THEN conjunct1] assms(3), of "fst (outputRegister1 w)"]
    obtain b where b: "(if level = HIGH then or_shl1 (fst (outputRegister1 w)) (pin - 9)
          else and_not_shl1 (fst (outputRegister1 w)) (pin - 9)) = Some b"
      and bits: "\<forall>i. bit b i \<longleftrightarrow>
          (if i = unat (pin - 9) \<and> i < 8 then level = 1 else bit (fst (outputRegister1 w)) i)"
      by blast
    let ?v = "w\<lparr>outputRegister1 := (b, snd (outputRegister1 w))\<rparr>"
    have eq: "DigitalWrite pin level w = DigitalWrite_transmit OUTPUT_REG_1 outputRegister1 ?v"
      using mid p b by (simp add: DigitalWrite_def)
    have le16: "pin \<le> 16 \<and> \<not> 17 \<le> pin" using mid by unat_arith
    have n: "unat (pin - 9) + 8 = unat pin - 1" using mid assms by unat_arith
    have r1: "bit (reg16 (b, snd (outputRegister1 w))) i =
        (if i = unat pin - 1 then level = 1 else bit (reg16 (outputRegister1 w)) i)" for i
      using reg16_high_update [OF bits, of "snd (outputRegister1 w)" i] p n by simp
    from DigitalWrite_via_transmit [OF eq] r1 le16 show ?thesis by simp
  next
    case hi
    note p = pin_ranges(3) [OF assms(1,2) hi]
    from level_bits [OF p [THEN conjunct2, THEN conjunct2, THEN conjunct1] assms(3),
        of "snd (outputRegister2 w)"]
    obtain b where b: "(if level = HIGH then or_shl1 (snd (outputRegister2 w)) (pin - 17)
          else and_not_shl1 (snd (outputRegister2 w)) (pin - 17)) = Some b"
      and bits: "\<forall>i. bit b i \<longleftrightarrow>
          (if i = unat (pin - 17) \<and> i < 8 then level = 1 else bit (snd (outputRegister2 w)) i)"
      by blast
    let ?v = "w\<lparr>outputRegister2 := (fst (outputRegister2 w), b)\<rparr>"
    have eq: "DigitalWrite pin level w = DigitalWrite_transmit OUTPUT_REG_2 outputRegister2 ?v"
      using hi p b assms(2) by (simp add: DigitalWrite_def)
    have r2: "bit (reg16 (fst (outputRegister2 w), b)) i =
        (if i = unat (pin - 17) then level = 1 else bit (reg16 (outputRegister2 w)) i)" for i
      using reg16_low_update [OF bits, of "fst (outputRegister2 w)" i] p by simp
    from DigitalWrite_via_transmit [OF eq] r2 hi p show ?thesis by simp
  qed
qed

text \<open>The theorem at pin 5 (CN13_2), level 1, from the initial state.\<close>

theorem DigitalWrite_sets_one_bit_witness:
  "(1::uint) \<le> 5 \<and> (5::uint) \<le> 20 \<and> ((1::int) = 0 \<or> (1::int) = 1) \<and> latches initial_world
   \<and> (\<exists>w'. DigitalWrite 5 1 initial_world = Return 0 w'
         \<and> bit (reg16 (outputRegister1 w')) 4 \<and> \<not> bit (reg16 (outputRegister1 w')) 5
         \<and> \<not> bit (reg16 (outputRegister2 w')) 4)"
proof -
  have h: "(1::uint) \<le> 5" "(5::uint) \<le> 20" "(1::int) = 0 \<or> (1::int) = 1" by simp_all
  note t = DigitalWrite_sets_one_bit [OF h, of initial_world]
  from t [THEN conjunct2, THEN mp, OF latches_initial]
  obtain w' where r: "DigitalWrite 5 1 initial_world = Return 0 w'" ..
  have z: "reg16 (outputRegister1 initial_world) = 0" "reg16 (outputRegister2 initial_world) = 0"
    by (simp_all add: initial_world_def reg16_def)
  from t [THEN conjunct1, rule_format, OF r] z
  have "bit (reg16 (outputRegister1 w')) 4 \<and> \<not> bit (reg16 (outputRegister1 w')) 5
         \<and> \<not> bit (reg16 (outputRegister2 w')) 4" by simp
  with r h latches_initial show ?thesis by blast
qed

text \<open>
  C5, at pin 0. The first test of \<open>DigitalWrite\<close> is \<open>pin_number <= 8\<close>, which 0 passes:
  the call does not reach the rejecting branch but shifts 1 by \<open>0u - 1\<close>, which C leaves
  undefined.
\<close>

theorem DigitalWrite_pin_0: "DigitalWrite 0 level w = Undefined"
  by (simp add: DigitalWrite_def or_shl1_def and_not_shl1_def shl1_def)

text \<open>
  C6, at pin 0. \<open>DigitalRead\<close> tests \<open>pin_number <= 8\<close> first, so pin 0 evaluates
  \<open>getBit(inputRegister[1], 0)\<close>, a shift by \<open>0u - 1\<close>: no call with pin 0 returns -1,
  and from the initial state the call has no defined result.
\<close>

theorem DigitalRead_pin_0:
  "DigitalRead 0 w \<noteq> Return r w' \<and> DigitalRead 0 initial_world = Undefined"
proof
  show "DigitalRead 0 w \<noteq> Return r w'"
    by (simp add: DigitalRead_unfold getBit_0 and_then_Return)
  show "DigitalRead 0 initial_world = Undefined"
    by (simp add: DigitalRead_unfold getBit_0 verify_none_latched latches_initial and_then_def)
qed

section \<open>AnalogRead: a sample above 4095\<close>

lemma masked_sum:
  fixes b0 b1 :: u8
  shows "push_bit 8 (uint (b0 AND 0x0F)) + uint b1 = push_bit 8 (uint (b0 AND 0x0F)) OR uint b1"
proof (rule disjunctive_add_eq_or)
  show "push_bit 8 (uint (b0 AND 0x0F)) AND uint b1 = 0"
    by (rule bit_eqI) (auto simp add: bit_simps dest: bit_imp_le_length)
qed

lemma masked_bound:
  fixes b0 b1 :: u8
  shows "push_bit 8 (uint (b0 AND 0x0F)) + uint b1 \<le> 4095"
proof -
  have "uint (b0 AND 0x0F) \<le> 15"
    using AND_upper2 [of 15 "uint b0"] by (simp add: uint_and)
  moreover have "uint b1 < 256" using uint_bounded [of b1] by simp
  ultimately show ?thesis by (simp add: push_bit_eq_mult)
qed

lemma pattern_ADC: "pattern (SetShieldMode ADC w) = [True, True, True, True, True, True, True]"
  using pattern_SetShieldMode [of ADC w] by (simp add: ShieldModes_def ADC_def)

lemma not_idle_verified_pattern:
  "pattern w \<noteq> [True, True, True, False, False, False, False] \<Longrightarrow> \<not> idle_verified w"
  by (simp add: idle_verified_def)

lemma AnalogRead_unfold:
  assumes "port_num \<le> 7"
  shows "AnalogRead port_num w =
     (if push_bit 8 (uint (miso w (spi_count w + 1))) + uint (miso w (spi_count w + 2)) > 4095
      then Return (push_bit 8 (uint (miso w (spi_count w + 1) AND 0x0F))
                   + uint (miso w (spi_count w + 2))) (AnalogRead_read port_num w)
      else and_then (VerifyAndFixShieldMode NONE (SetShieldMode NONE (AnalogRead_read port_num w)))
             (\<lambda>_ w'. Return (push_bit 8 (uint (miso w (spi_count w + 1)))
                              + uint (miso w (spi_count w + 2))) w'))"
proof -
  have "\<not> port_num > 7" using assms by simp
  then show ?thesis
    by (simp add: AnalogRead_def AnalogRead_read_def Let_def bcm2835_spi_transfern2_def
          bcm2835_spi_transfer_def usleep_def emit_def ADC_MAXIMUM_def add.commute)
qed

lemma AnalogRead_read_simps:
  "pattern (AnalogRead_read p w) = [True, True, True, True, True, True, True]"
  "samples (AnalogRead_read p w) = samples w"
  "latches (AnalogRead_read p w) = latches w"
  "trace (AnalogRead_read p w) \<noteq> []"
  "last (trace (AnalogRead_read p w)) = Usleep (spi_delay_usecs w)"
  "filter is_spi (trace (AnalogRead_read p w)) =
     filter is_spi (trace w) @ [Spi_transfer (adcConversion ! unat p), Spi_transfern [0, 0]]"
  "internalRegister (AnalogRead_read p w) = internalRegister w"
  "outputRegister1 (AnalogRead_read p w) = outputRegister1 w"
  "outputRegister2 (AnalogRead_read p w) = outputRegister2 w"
proof -
  have "gpio_level (AnalogRead_read p w) = gpio_level (SetShieldMode ADC w)"
    by (simp add: AnalogRead_read_def prim_defs)
  from pattern_cong [OF this] show "pattern (AnalogRead_read p w) = [True, True, True, True, True, True, True]"
    by (simp add: pattern_ADC)
qed (simp_all add: AnalogRead_read_def prim_defs latches_def)

text \<open>
  C7. On a channel 0 to 7, when the two bytes of the duplex read form a value above
  4095, \<open>AnalogRead\<close> returns \<open>(byte0 & 0x0F) << 8 | byte1\<close>, a value of at most 4095, and
  returns at once: the select lines are still at ADC (1111111), no sample of the lines
  was taken, and the last external call is the wait after the read.
\<close>

theorem AnalogRead_overflow:
  assumes "port_num \<le> 7"
    and "push_bit 8 (uint (miso w (spi_count w + 1))) + uint (miso w (spi_count w + 2)) > 4095"
  shows "\<exists>w'. AnalogRead port_num w =
           Return (push_bit 8 (uint (miso w (spi_count w + 1) AND 0x0F))
                   OR uint (miso w (spi_count w + 2))) w'
     \<and> push_bit 8 (uint (miso w (spi_count w + 1) AND 0x0F)) OR uint (miso w (spi_count w + 2))
         \<le> 4095
     \<and> pattern w' = [True, True, True, True, True, True, True]
     \<and> samples w' = samples w
     \<and> last (trace w') = Usleep (spi_delay_usecs w)
     \<and> \<not> idle_verified w'"
proof -
  have "AnalogRead port_num w =
      Return (push_bit 8 (uint (miso w (spi_count w + 1) AND 0x0F))
              OR uint (miso w (spi_count w + 2))) (AnalogRead_read port_num w)"
    using assms(2) by (simp add: AnalogRead_unfold [OF assms(1)] masked_sum)
  moreover have "\<not> idle_verified (AnalogRead_read port_num w)"
    by (rule not_idle_verified_pattern) (simp add: AnalogRead_read_simps)
  ultimately show ?thesis
    using masked_bound [of "miso w (spi_count w + 1)" "miso w (spi_count w + 2)"]
    by (simp add: AnalogRead_read_simps masked_sum [symmetric])
qed

text \<open>The theorem at the bytes 0x1F, 0xFF (8191) on channel 0: the result is 4095.\<close>

theorem AnalogRead_overflow_witness:
  "(0::uint) \<le> 7
   \<and> push_bit 8 (uint (miso overflow_world (spi_count overflow_world + 1)))
       + uint (miso overflow_world (spi_count overflow_world + 2)) = 8191
   \<and> (\<exists>w'. AnalogRead 0 overflow_world = Return 4095 w'
         \<and> pattern w' = [True, True, True, True, True, True, True]
         \<and> samples w' = 0 \<and> \<not> idle_verified w')"
proof -
  have h: "(0::uint) \<le> 7" by simp
  have v: "miso overflow_world (spi_count overflow_world + 1) = 0x1F"
    "miso overflow_world (spi_count overflow_world + 2) = 0xFF"
    "samples overflow_world = 0"
    by (simp_all add: overflow_world_def initial_world_def)
  have r: "push_bit 8 (uint (miso overflow_world (spi_count overflow_world + 1)))
       + uint (miso overflow_world (spi_count overflow_world + 2)) = 8191"
    unfolding v by simp
  then have g: "push_bit 8 (uint (miso overflow_world (spi_count overflow_world + 1)))
       + uint (miso overflow_world (spi_count overflow_world + 2)) > 4095" by simp
  have m: "push_bit 8 (uint ((0x1F :: u8) AND 0x0F)) OR uint (0xFF :: u8) = 4095"
    by simp
  from AnalogRead_overflow [OF h g] obtain w' where
    "AnalogRead 0 overflow_world = Return 4095 w'"
    "pattern w' = [True, True, True, True, True, True, True]"
    "samples w' = 0" "\<not> idle_verified w'"
    unfolding v m by blast
  with h r show ?thesis by blast
qed


section \<open>Which calls end at NONE, verified\<close>

lemma exchangedI:
  "filter is_spi (trace w') = filter is_spi (trace w) @ es \<Longrightarrow> es \<noteq> [] \<Longrightarrow> exchanged w w'"
  by (cases es) (simp_all add: exchanged_def)

lemma level_defined:
  "n < 31 \<Longrightarrow> \<exists>b. (if level = HIGH then or_shl1 r n else and_not_shl1 r n) = Some b"
  by (simp add: or_shl1_def and_not_shl1_def shl1_def)

lemma DigitalWrite_in_range:
  assumes "1 \<le> pin" and "pin \<le> 20"
  shows "\<exists>m reg v. DigitalWrite pin level w = DigitalWrite_transmit m reg v
     \<and> trace v = trace w \<and> latches v = latches w"
proof -
  consider (lo) "pin \<le> 8" | (mid) "\<not> pin \<le> 8" "pin \<le> 16" | (hi) "\<not> pin \<le> 16" by blast
  then show ?thesis
  proof cases
    case lo
    note p = pin_ranges(1) [OF assms lo]
    from level_defined [OF p [THEN conjunct1], of level "snd (outputRegister1 w)"]
    obtain b where "(if level = HIGH then or_shl1 (snd (outputRegister1 w)) (pin - 1)
          else and_not_shl1 (snd (outputRegister1 w)) (pin - 1)) = Some b" ..
    with lo have "DigitalWrite pin level w = DigitalWrite_transmit OUTPUT_REG_1 outputRegister1
        (w\<lparr>outputRegister1 := (fst (outputRegister1 w), b)\<rparr>)"
      by (simp add: DigitalWrite_def)
    then show ?thesis by (intro exI conjI) (assumption, simp_all)
  next
    case mid
    note p = pin_ranges(2) [OF assms mid]
    from level_defined [OF p [THEN conjunct2, THEN conjunct1], of level "fst (outputRegister1 w)"]
    obtain b where "(if level = HIGH then or_shl1 (fst (outputRegister1 w)) (pin - 9)
          else and_not_shl1 (fst (outputRegister1 w)) (pin - 9)) = Some b" ..
    with mid p have "DigitalWrite pin level w = DigitalWrite_transmit OUTPUT_REG_1 outputRegister1
        (w\<lparr>outputRegister1 := (b, snd (outputRegister1 w))\<rparr>)"
      by (simp add: DigitalWrite_def)
    then show ?thesis by (intro exI conjI) (assumption, simp_all)
  next
    case hi
    note p = pin_ranges(3) [OF assms hi]
    from level_defined [OF p [THEN conjunct2, THEN conjunct2, THEN conjunct1], of level
        "snd (outputRegister2 w)"]
    obtain b where "(if level = HIGH then or_shl1 (snd (outputRegister2 w)) (pin - 17)
          else and_not_shl1 (snd (outputRegister2 w)) (pin - 17)) = Some b" ..
    with hi p assms(2) have "DigitalWrite pin level w =
        DigitalWrite_transmit OUTPUT_REG_2 outputRegister2
          (w\<lparr>outputRegister2 := (fst (outputRegister2 w), b)\<rparr>)"
      by (simp add: DigitalWrite_def)
    then show ?thesis by (intro exI conjI) (assumption, simp_all)
  qed
qed

lemma DigitalWrite_idle:
  assumes "1 \<le> pin" and "pin \<le> 20"
  shows "(\<forall>r w'. DigitalWrite pin level w = Return r w' \<longrightarrow> exchanged w w' \<and> idle_verified w')
     \<and> (latches w \<longrightarrow> (\<exists>r w'. DigitalWrite pin level w = Return r w'))"
proof -
  from DigitalWrite_in_range [OF assms, of level w] obtain m reg v where
    eq: "DigitalWrite pin level w = DigitalWrite_transmit m reg v"
    and t: "trace v = trace w" and l: "latches v = latches w" by blast
  have "exchanged w w' \<and> idle_verified w'" if "DigitalWrite_transmit m reg v = Return r w'" for r w'
    using DigitalWrite_transmit_Return [OF that] t by (auto intro: exchangedI)
  moreover have "\<exists>r w'. DigitalWrite_transmit m reg v = Return r w'" if "latches w"
    using DigitalWrite_transmit_latched [of v m reg] that l by blast
  ultimately show ?thesis unfolding eq by blast
qed

lemma getBit_defined: "n - 1 < 32 \<Longrightarrow> \<exists>b. getBit x n = Some b"
  by (simp add: getBit_def)

lemma DigitalRead_idle:
  "(\<forall>r w'. DigitalRead pin w = Return r w' \<longrightarrow> exchanged w w' \<and> idle_verified w')
   \<and> (latches w \<and> 1 \<le> pin \<longrightarrow> (\<exists>r w'. DigitalRead pin w = Return r w'))"
proof (intro conjI allI impI)
  let ?v = "usleep (spi_delay_usecs w)
    (snd (bcm2835_spi_transfern2 (0, 0) (SetShieldMode INPUT_REG w)))"
  have s: "filter is_spi (trace ?v) = filter is_spi (trace w) @ [Spi_transfern [0, 0]]"
    by (simp add: prim_defs)
  {
    fix r w' assume a: "DigitalRead pin w = Return r w'"
    then obtain u w1 where v: "VerifyAndFixShieldMode NONE (SetShieldMode NONE ?v) = Return u w1"
      and k: "(if pin \<le> 8 then
            (case getBit (miso w (spi_count w + 1)) pin of
               None \<Rightarrow> Undefined | Some b \<Rightarrow> Return b w1)
          else if pin \<le> 10 then
            (case getBit (miso w (spi_count w)) (pin - 8) of
               None \<Rightarrow> Undefined | Some b \<Rightarrow> Return b w1)
          else Return (- 1) w1) = Return r w'"
      unfolding DigitalRead_unfold and_then_Return by blast
    have w: "w' = w1" using k by (auto split: if_splits option.splits)
    from v have "world_of (VerifyAndFixShieldMode NONE (SetShieldMode NONE ?v)) = Some w1" by simp
    from verify_none_world [OF this] s w have "exchanged w w'" by (auto intro: exchangedI)
    moreover from DigitalRead_in_range [OF a] have "idle_verified w'" by simp
    ultimately show "exchanged w w'" and "idle_verified w'" by simp_all
  }
  assume "latches w \<and> 1 \<le> pin"
  then have l: "latches ?v" and p: "1 \<le> pin" by simp_all
  have d1: "\<exists>b. getBit (miso w (spi_count w + 1)) pin = Some b" if "pin \<le> 8"
    using that p by (intro getBit_defined) unat_arith
  have d2: "\<exists>b. getBit (miso w (spi_count w)) (pin - 8) = Some b" if "\<not> pin \<le> 8" "pin \<le> 10"
    using that p by (intro getBit_defined) unat_arith
  show "\<exists>r w'. DigitalRead pin w = Return r w'"
    using d1 d2 unfolding DigitalRead_unfold
    by (auto simp add: verify_none_latched [OF l] and_then_def)
qed

lemma AnalogRead_idle:
  assumes "port_num \<le> 7"
    and "push_bit 8 (uint (miso w (spi_count w + 1))) + uint (miso w (spi_count w + 2)) \<le> 4095"
  shows "(\<forall>r w'. AnalogRead port_num w = Return r w' \<longrightarrow> exchanged w w' \<and> idle_verified w')
     \<and> (latches w \<longrightarrow> (\<exists>r w'. AnalogRead port_num w = Return r w'))"
proof -
  let ?f = "\<lambda>(_::unit) w'. Return (push_bit 8 (uint (miso w (spi_count w + 1)))
                              + uint (miso w (spi_count w + 2))) w'"
  have eq: "AnalogRead port_num w =
      and_then (VerifyAndFixShieldMode NONE (SetShieldMode NONE (AnalogRead_read port_num w))) ?f"
    using assms(2) by (simp add: AnalogRead_unfold [OF assms(1)])
  have "exchanged w w' \<and> idle_verified w'"
    if "and_then (VerifyAndFixShieldMode NONE (SetShieldMode NONE (AnalogRead_read port_num w))) ?f
          = Return r w'" for r w'
    using finish_Return [OF that] by (auto simp add: AnalogRead_read_simps intro: exchangedI)
  moreover have "\<exists>r w'. and_then (VerifyAndFixShieldMode NONE
        (SetShieldMode NONE (AnalogRead_read port_num w))) ?f = Return r w'" if "latches w"
    using that by (simp add: finish_latched AnalogRead_read_simps)
  ultimately show ?thesis unfolding eq by blast
qed

lemma AnalogWrite_unfold:
  "AnalogWrite dac_bytes adc_addr mv_value w =
     VerifyAndFixShieldMode NONE (SetShieldMode NONE (AnalogWrite_sent dac_bytes adc_addr mv_value w))"
  by (simp add: AnalogWrite_def AnalogWrite_sent_def Let_def bcm2835_spi_transfern2_def
        bcm2835_spi_writenb_def usleep_def emit_def)

lemma AnalogWrite_sent_simps:
  "latches (AnalogWrite_sent e a mv w) = latches w"
  "\<exists>es. filter is_spi (trace (AnalogWrite_sent e a mv w)) = filter is_spi (trace w) @ es \<and> es \<noteq> []"
  by (simp_all add: AnalogWrite_sent_def Let_def prim_defs latches_def)

lemma AnalogWrite_idle:
  "(\<forall>u w'. AnalogWrite e a mv w = Return u w' \<longrightarrow> exchanged w w' \<and> idle_verified w')
   \<and> (latches w \<longrightarrow> (\<exists>u w'. AnalogWrite e a mv w = Return u w'))"
proof (intro conjI allI impI)
  fix u w' assume r: "AnalogWrite e a mv w = Return u w'"
  then have v: "VerifyAndFixShieldMode NONE (SetShieldMode NONE (AnalogWrite_sent e a mv w)) = Return u w'"
    by (simp add: AnalogWrite_unfold)
  then have "world_of (VerifyAndFixShieldMode NONE (SetShieldMode NONE (AnalogWrite_sent e a mv w)))
      = Some w'" by simp
  from verify_none_world [OF this] AnalogWrite_sent_simps(2) [of e a mv w]
  show "exchanged w w'" by (auto intro: exchangedI)
  from verify_none_Return [OF v] show "idle_verified w'" .
next
  assume "latches w"
  then show "\<exists>u w'. AnalogWrite e a mv w = Return u w'"
    by (simp add: AnalogWrite_unfold verify_none_latched AnalogWrite_sent_simps)
qed

lemma PinMode_accepted_not_idle:
  assumes "1 \<le> seg" "seg \<le> 10" "mode \<in> {DIO, SPI, SIO}" "accepts seg mode"
  shows "\<exists>w'. PinMode seg mode w = Return 0 w' \<and> exchanged w w'
     \<and> pattern w' = [True, True, True, True, False, False, False]
     \<and> samples w' = samples w \<and> \<not> idle_verified w'"
proof -
  from PinMode_accepted [OF assms, of w] obtain r where
    eq: "PinMode seg mode w = PinMode_transmit (w\<lparr>internalRegister := r\<rparr>)" ..
  from PinMode_transmit_eq [of "w\<lparr>internalRegister := r\<rparr>"] obtain w' where
    r: "PinMode_transmit (w\<lparr>internalRegister := r\<rparr>) = Return 0 w'"
    and s: "samples w' = samples w"
    and p: "pattern w' = [True, True, True, True, False, False, False]"
    and f: "filter is_spi (trace w') = filter is_spi (trace w) @ [Spi_writenb [fst r, snd r]]"
    by auto
  from f have "exchanged w w'" by (auto intro: exchangedI)
  moreover from p have "\<not> idle_verified w'" by (simp add: idle_verified_def)
  ultimately show ?thesis using eq r s p by simp
qed

lemma PinMode_1_DIO_initial:
  "PinMode 1 DIO initial_world = PinMode_transmit (initial_world\<lparr>internalRegister := (0xFF, 0xFE)\<rparr>)"
  by (simp add: PinMode_def DIO_def and_not_shl1_def shl1_def initial_world_def)

text \<open>
  C8 (as amended). \<open>DigitalWrite\<close> on pins 1 to 20, \<open>DigitalRead\<close>, \<open>AnalogWrite\<close>, and
  \<open>AnalogRead\<close> on a channel 0 to 7 whose sample is at most 4095, exchange data on the
  serial link and, when they return, have switched the select lines back to NONE and
  verified them there as their last external call; on a board that latches they do
  return (\<open>DigitalRead\<close> for a pin of at least 1). \<open>PinMode\<close> on an accepted assignment is
  different: it transmits the internal register and returns 0 with the lines left at
  INTERNAL_REG (1111000) and no sample taken.
\<close>

theorem pin_api_back_to_idle:
  "(1 \<le> pin \<and> pin \<le> 20 \<longrightarrow>
      (\<forall>r w'. DigitalWrite pin level w = Return r w' \<longrightarrow> exchanged w w' \<and> idle_verified w')
      \<and> (latches w \<longrightarrow> (\<exists>r w'. DigitalWrite pin level w = Return r w')))
   \<and> (\<forall>r w'. DigitalRead ipin w = Return r w' \<longrightarrow> exchanged w w' \<and> idle_verified w')
   \<and> (latches w \<and> 1 \<le> ipin \<longrightarrow> (\<exists>r w'. DigitalRead ipin w = Return r w'))
   \<and> (\<forall>u w'. AnalogWrite dac_bytes adc_addr mv_value w = Return u w' \<longrightarrow>
          exchanged w w' \<and> idle_verified w')
   \<and> (latches w \<longrightarrow> (\<exists>u w'. AnalogWrite dac_bytes adc_addr mv_value w = Return u w'))
   \<and> (port_num \<le> 7
        \<and> push_bit 8 (uint (miso w (spi_count w + 1))) + uint (miso w (spi_count w + 2)) \<le> 4095 \<longrightarrow>
      (\<forall>r w'. AnalogRead port_num w = Return r w' \<longrightarrow> exchanged w w' \<and> idle_verified w')
      \<and> (latches w \<longrightarrow> (\<exists>r w'. AnalogRead port_num w = Return r w')))
   \<and> (1 \<le> seg \<and> seg \<le> 10 \<and> mode \<in> {DIO, SPI, SIO}
        \<and> (mode \<noteq> SPI \<or> seg \<le> 8) \<and> (mode \<noteq> SIO \<or> seg = 10) \<longrightarrow>
      (\<exists>w'. PinMode seg mode w = Return 0 w' \<and> exchanged w w'
         \<and> pattern w' = [True, True, True, True, False, False, False]
         \<and> samples w' = samples w \<and> \<not> idle_verified w'))"
proof -
  have a: "1 \<le> pin \<and> pin \<le> 20 \<longrightarrow>
      (\<forall>r w'. DigitalWrite pin level w = Return r w' \<longrightarrow> exchanged w w' \<and> idle_verified w')
      \<and> (latches w \<longrightarrow> (\<exists>r w'. DigitalWrite pin level w = Return r w'))"
    using DigitalWrite_idle [of pin level w] by blast
  have d: "port_num \<le> 7
        \<and> push_bit 8 (uint (miso w (spi_count w + 1))) + uint (miso w (spi_count w + 2)) \<le> 4095 \<longrightarrow>
      (\<forall>r w'. AnalogRead port_num w = Return r w' \<longrightarrow> exchanged w w' \<and> idle_verified w')
      \<and> (latches w \<longrightarrow> (\<exists>r w'. AnalogRead port_num w = Return r w'))"
    using AnalogRead_idle [of port_num w] by blast
  have e: "1 \<le> seg \<and> seg \<le> 10 \<and> mode \<in> {DIO, SPI, SIO}
        \<and> (mode \<noteq> SPI \<or> seg \<le> 8) \<and> (mode \<noteq> SIO \<or> seg = 10) \<longrightarrow>
      (\<exists>w'. PinMode seg mode w = Return 0 w' \<and> exchanged w w'
         \<and> pattern w' = [True, True, True, True, False, False, False]
         \<and> samples w' = samples w \<and> \<not> idle_verified w')"
    using PinMode_accepted_not_idle [of seg mode w] unfolding accepts_def by blast
  from a d e DigitalRead_idle [of ipin w] AnalogWrite_idle [of dac_bytes adc_addr mv_value w]
  show ?thesis by (intro conjI) (rule a, simp, simp, simp, simp, rule d, rule e)
qed

text \<open>The theorem at one call of each operation, from the initial state.\<close>

theorem pin_api_back_to_idle_witness:
  "(1::uint) \<le> 5 \<and> (5::uint) \<le> 20 \<and> latches initial_world \<and> (1::uint) \<le> 3 \<and> (0::uint) \<le> 7
   \<and> push_bit 8 (uint (miso initial_world (spi_count initial_world + 1)))
        + uint (miso initial_world (spi_count initial_world + 2)) \<le> 4095
   \<and> (1::uint) \<le> 1 \<and> (1::uint) \<le> 10 \<and> DIO \<in> {DIO, SPI, SIO}
   \<and> DIO \<noteq> SPI \<and> DIO \<noteq> SIO
   \<and> (\<exists>r w'. DigitalWrite 5 1 initial_world = Return r w'
          \<and> exchanged initial_world w' \<and> idle_verified w')
   \<and> (\<exists>r w'. DigitalRead 3 initial_world = Return r w'
          \<and> exchanged initial_world w' \<and> idle_verified w')
   \<and> (\<exists>u w'. AnalogWrite (\<lambda>mv. (0, 0)) 0 1000 initial_world = Return u w'
          \<and> exchanged initial_world w' \<and> idle_verified w')
   \<and> (\<exists>r w'. AnalogRead 0 initial_world = Return r w'
          \<and> exchanged initial_world w' \<and> idle_verified w')
   \<and> (\<exists>w'. PinMode 1 DIO initial_world = Return 0 w'
          \<and> exchanged initial_world w' \<and> \<not> idle_verified w')"
proof -
  have h1: "(1::uint) \<le> 5 \<and> (5::uint) \<le> 20" by simp
  have h2: "latches initial_world \<and> (1::uint) \<le> 3" using latches_initial by simp
  have h3: "(0::uint) \<le> 7
     \<and> push_bit 8 (uint (miso initial_world (spi_count initial_world + 1)))
        + uint (miso initial_world (spi_count initial_world + 2)) \<le> 4095"
    by (simp add: initial_world_def)
  have h4: "(1::uint) \<le> 1 \<and> (1::uint) \<le> 10 \<and> DIO \<in> {DIO, SPI, SIO}
     \<and> (DIO \<noteq> SPI \<or> (1::uint) \<le> 8) \<and> (DIO \<noteq> SIO \<or> (1::uint) = 10)"
    by (simp add: DIO_def SPI_def SIO_def)
  note t = pin_api_back_to_idle [of 5 1 initial_world 3 "\<lambda>mv. (0, 0)" 0 1000 0 1 DIO]
  note a = t [THEN conjunct1, THEN mp, OF h1]
  note b1 = t [THEN conjunct2, THEN conjunct1]
  note b2 = t [THEN conjunct2, THEN conjunct2, THEN conjunct1, THEN mp, OF h2]
  note c1 = t [THEN conjunct2, THEN conjunct2, THEN conjunct2, THEN conjunct1]
  note c2 = t [THEN conjunct2, THEN conjunct2, THEN conjunct2, THEN conjunct2, THEN conjunct1,
    THEN mp, OF latches_initial]
  note d = t [THEN conjunct2, THEN conjunct2, THEN conjunct2, THEN conjunct2, THEN conjunct2,
    THEN conjunct1, THEN mp, OF h3]
  note e = t [THEN conjunct2, THEN conjunct2, THEN conjunct2, THEN conjunct2, THEN conjunct2,
    THEN conjunct2, THEN mp, OF h4]
  have ra: "\<exists>r w'. DigitalWrite 5 1 initial_world = Return r w'
          \<and> exchanged initial_world w' \<and> idle_verified w'"
    using a latches_initial by blast
  have rb: "\<exists>r w'. DigitalRead 3 initial_world = Return r w'
          \<and> exchanged initial_world w' \<and> idle_verified w'"
    using b1 b2 by blast
  have rc: "\<exists>u w'. AnalogWrite (\<lambda>mv. (0, 0)) 0 1000 initial_world = Return u w'
          \<and> exchanged initial_world w' \<and> idle_verified w'"
    using c1 c2 by blast
  have rd: "\<exists>r w'. AnalogRead 0 initial_world = Return r w'
          \<and> exchanged initial_world w' \<and> idle_verified w'"
    using d latches_initial by blast
  have re: "\<exists>w'. PinMode 1 DIO initial_world = Return 0 w'
          \<and> exchanged initial_world w' \<and> \<not> idle_verified w'"
    using e by blast
  have h5: "DIO \<noteq> SPI \<and> DIO \<noteq> SIO" by (simp add: DIO_def SPI_def SIO_def)
  from h1 h2 h3 h4 h5 ra rb rc rd re show ?thesis by simp
qed

text \<open>
  The claim as written has every pin-level call that performs its exchange end at NONE,
  verified. \<open>PinMode(1, DIO)\<close> from the initial state returns 0 having sent the register
  bytes 0xFF, 0xFE, with the lines at 1111000, no sample taken, not at NONE.
\<close>

theorem PinMode_stays_in_INTERNAL_REG_counterexample:
  "value_of (PinMode 1 DIO initial_world) = Some 0
   \<and> map_option (filter is_spi \<circ> trace) (world_of (PinMode 1 DIO initial_world))
       = Some [Spi_writenb [0xFF, 0xFE]]
   \<and> map_option pattern (world_of (PinMode 1 DIO initial_world))
       = Some [True, True, True, True, False, False, False]
   \<and> map_option samples (world_of (PinMode 1 DIO initial_world)) = Some 0
   \<and> map_option idle_verified (world_of (PinMode 1 DIO initial_world)) = Some False"
proof -
  from PinMode_transmit_eq [of "initial_world\<lparr>internalRegister := (0xFF, 0xFE)\<rparr>"]
  obtain w' where
    r: "PinMode_transmit (initial_world\<lparr>internalRegister := (0xFF, 0xFE)\<rparr>) = Return 0 w'"
    and s: "samples w' = samples (initial_world\<lparr>internalRegister := (0xFF, 0xFE)\<rparr>)"
    and p: "pattern w' = [True, True, True, True, False, False, False]"
    and f: "filter is_spi (trace w') =
       filter is_spi (trace (initial_world\<lparr>internalRegister := (0xFF, 0xFE)\<rparr>))
         @ [Spi_writenb [0xFF, 0xFE]]"
    by auto
  from p have "\<not> idle_verified w'" by (simp add: idle_verified_def)
  with r s p f show ?thesis
    by (simp add: PinMode_1_DIO_initial value_of_def) (simp add: initial_world_def)
qed

section \<open>RpcChangeMode: the mode when no prefix matches\<close>

lemma NUL_notin_cstr: "NUL \<notin> set (cstr s)"
  using set_takeWhileD [of NUL "\<lambda>c. c \<noteq> NUL" s] by (auto simp add: cstr_def)

lemma of_char_int_eq: "(of_char x :: int) = of_char y \<longleftrightarrow> x = y"
  by simp

lemma of_char_int_0: "(of_char x :: int) = 0 \<longleftrightarrow> x = NUL"
  using of_char_int_eq [of x NUL] by (simp add: NUL_def)

lemma strncmp_1:
  "strncmp (x # xs) v (Suc 0) = 0 \<longleftrightarrow> (x = NUL \<and> v = [] \<or> take (Suc 0) v = [x])"
  by (cases v) (auto simp add: of_char_int_0)

lemma strncmp_2:
  "x \<noteq> NUL \<Longrightarrow> y \<noteq> NUL \<Longrightarrow> strncmp (x # y # xs) v 2 = 0 \<longleftrightarrow> take 2 v = [x, y]"
proof (cases v)
  case Nil
  then show "x \<noteq> NUL \<Longrightarrow> y \<noteq> NUL \<Longrightarrow> ?thesis" by (simp add: numeral_2_eq_2 of_char_int_0)
next
  case (Cons a as)
  then show "x \<noteq> NUL \<Longrightarrow> y \<noteq> NUL \<Longrightarrow> ?thesis"
    by (cases as) (auto simp add: numeral_2_eq_2 of_char_int_0)
qed

lemma cstr_literal: "NUL \<notin> set s \<Longrightarrow> cstr s = s"
  by (auto simp add: cstr_def)

lemma atoi_11: "atoi ''11'' = Some 11"
  by (simp add: atoi_def isspace_def isdigit_def Let_def)

lemma PinMode_1_SPI_all_dio:
  "PinMode 1 SPI all_dio_world = PinMode_transmit (all_dio_world\<lparr>internalRegister := (0x00, 0x01)\<rparr>)"
  by (simp add: PinMode_def DIO_def SPI_def or_shl1_def shl1_def all_dio_world_def initial_world_def)

text \<open>
  C10. For a value that begins with neither "d" nor "sp" nor "si", \<open>RpcChangeMode\<close>
  calls \<open>PinMode\<close> with mode SPI for the parsed segment (the two characters after
  "shield.cn", minus 10): the variable \<open>mode\<close> keeps its initial value SPI.
\<close>

theorem RpcChangeMode_falls_back_to_SPI:
  assumes "take 1 (cstr v) \<noteq> ''d''" and "take 2 (cstr v) \<noteq> ''sp''"
    and "take 2 (cstr v) \<noteq> ''si''"
    and "9 \<le> length (cstr p)" and "atoi (take 2 (drop 9 (cstr p))) = Some n"
  shows "RpcChangeMode (Some p) (Some v) w = PinMode (of_int (n - 10)) SPI w"
proof -
  have "strncmp ''dio'' (cstr v) 1 \<noteq> 0" using assms(1) by (simp add: strncmp_1 NUL_def)
  moreover have "strncmp ''spi'' (cstr v) 2 \<noteq> 0" using assms(2) by (simp add: strncmp_2 NUL_def)
  moreover have "strncmp ''sio'' (cstr v) 2 \<noteq> 0" using assms(3) by (simp add: strncmp_2 NUL_def)
  moreover have "\<not> length (cstr p) < 9" using assms(4) by simp
  ultimately show ?thesis
    using assms(5) by (simp add: RpcChangeMode_def Let_def)
qed

text \<open>
  The theorem at "shield.cn11" with the value "xyz", all segments DIO before: the call
  is \<open>PinMode(1, SPI)\<close>, returns 0, and sets bit 0 of the low register byte.
\<close>

theorem RpcChangeMode_falls_back_to_SPI_witness:
  "take 1 (cstr ''xyz'') \<noteq> ''d'' \<and> take 2 (cstr ''xyz'') \<noteq> ''sp''
   \<and> take 2 (cstr ''xyz'') \<noteq> ''si'' \<and> 9 \<le> length (cstr ''shield.cn11'')
   \<and> atoi (take 2 (drop 9 (cstr ''shield.cn11''))) = Some 11
   \<and> RpcChangeMode (Some ''shield.cn11'') (Some ''xyz'') all_dio_world
       = PinMode 1 SPI all_dio_world
   \<and> value_of (RpcChangeMode (Some ''shield.cn11'') (Some ''xyz'') all_dio_world) = Some 0
   \<and> map_option internalRegister
        (world_of (RpcChangeMode (Some ''shield.cn11'') (Some ''xyz'') all_dio_world))
       = Some (0x00, 0x01)"
proof -
  have c: "cstr ''xyz'' = ''xyz''" "cstr ''shield.cn11'' = ''shield.cn11''"
    by (simp_all add: cstr_def NUL_def)
  have h: "take 1 (cstr ''xyz'') \<noteq> ''d''" "take 2 (cstr ''xyz'') \<noteq> ''sp''"
    "take 2 (cstr ''xyz'') \<noteq> ''si''" "9 \<le> length (cstr ''shield.cn11'')"
    "atoi (take 2 (drop 9 (cstr ''shield.cn11''))) = Some 11"
    unfolding c by (simp_all add: atoi_11)
  have eq: "RpcChangeMode (Some ''shield.cn11'') (Some ''xyz'') all_dio_world
       = PinMode 1 SPI all_dio_world"
    using RpcChangeMode_falls_back_to_SPI [OF h, of all_dio_world] by simp
  from PinMode_transmit_eq [of "all_dio_world\<lparr>internalRegister := (0x00, 0x01)\<rparr>"]
  obtain w' where
    "PinMode_transmit (all_dio_world\<lparr>internalRegister := (0x00, 0x01)\<rparr>) = Return 0 w'"
    "internalRegister w' = (0x00, 0x01)" by auto
  then have "value_of (PinMode 1 SPI all_dio_world) = Some 0
     \<and> map_option internalRegister (world_of (PinMode 1 SPI all_dio_world)) = Some (0x00, 0x01)"
    by (simp add: PinMode_1_SPI_all_dio value_of_def)
  with h eq show ?thesis by simp
qed


section \<open>RpcPinWrite: what is rejected before any shield operation\<close>

lemma component_takeWhile:
  assumes "component t"
  shows "takeWhile (\<lambda>c. c = CHR ''.'') (t @ ys) = []"
    and "takeWhile (\<lambda>c. c \<noteq> CHR ''.'' \<and> c \<noteq> NUL) (t @ CHR ''.'' # ys) = t"
    and "takeWhile (\<lambda>c. c \<noteq> CHR ''.'' \<and> c \<noteq> NUL) (t @ [NUL]) = t"
    and "(t @ ys) ! 0 \<noteq> NUL"
proof -
  from assms obtain x xs where t: "t = x # xs" and x: "x \<noteq> CHR ''.''" "x \<noteq> NUL"
    by (cases t) (auto simp add: component_def)
  show "takeWhile (\<lambda>c. c = CHR ''.'') (t @ ys) = []" using t x by simp
  show "(t @ ys) ! 0 \<noteq> NUL" using t x by simp
  have all: "\<And>c. c \<in> set t \<Longrightarrow> c \<noteq> CHR ''.'' \<and> c \<noteq> NUL"
    using assms by (auto simp add: component_def)
  show "takeWhile (\<lambda>c. c \<noteq> CHR ''.'' \<and> c \<noteq> NUL) (t @ CHR ''.'' # ys) = t"
    using all by (simp add: takeWhile_append2)
  show "takeWhile (\<lambda>c. c \<noteq> CHR ''.'' \<and> c \<noteq> NUL) (t @ [NUL]) = t"
    using all by (simp add: takeWhile_append2)
qed

lemma strtok_dot_mid:
  assumes "component t"
  shows "strtok_dot (pre @ t @ CHR ''.'' # rest) (length pre)
     = (Some (length pre), pre @ t @ NUL # rest, length pre + length t + 1)"
proof -
  have n: "(pre @ t @ CHR ''.'' # rest) ! (length pre + length t) = CHR ''.''"
    using nth_append_length [of "pre @ t" "CHR ''.''" rest] by simp
  have u: "(pre @ t @ CHR ''.'' # rest)[length pre + length t := NUL] = pre @ t @ NUL # rest"
    using list_update_length [of "pre @ t" "CHR ''.''" rest NUL] by simp
  have z: "(pre @ t @ CHR ''.'' # rest) ! length pre \<noteq> NUL"
    using component_takeWhile(4) [OF assms, of "CHR ''.'' # rest"] by (simp add: nth_append)
  show ?thesis
    using n u z by (simp add: strtok_dot_def Let_def component_takeWhile [OF assms])
qed

lemma strtok_dot_last:
  assumes "component t"
  shows "strtok_dot (pre @ t @ [NUL]) (length pre)
     = (Some (length pre), pre @ t @ [NUL], length pre + length t)"
proof -
  have n: "(pre @ t @ [NUL]) ! (length pre + length t) = NUL"
    using nth_append_length [of "pre @ t" NUL "[]"] by simp
  have z: "(pre @ t @ [NUL]) ! length pre \<noteq> NUL"
    using component_takeWhile(4) [OF assms, of "[NUL]"] by (simp add: nth_append)
  have d: "NUL \<noteq> CHR ''.''" by (simp add: NUL_def)
  show ?thesis
    using n z d by (simp add: strtok_dot_def Let_def component_takeWhile [OF assms])
qed

lemma cstr_component: "component t \<Longrightarrow> cstr (t @ NUL # ys) = t"
  by (auto simp add: cstr_def component_def takeWhile_tail)

text \<open>A name of three components, after the value has been accepted.\<close>

lemma RpcPinWrite_three_components:
  assumes a: "component a" and b: "component b" and c: "component c"
    and g: "hd a \<noteq> CHR ''g''"
    and v: "atoi (cstr v) = Some value_num"
    and k: "atoi c = Some pin_num"
    and l: "3 \<le> length b"
  shows "RpcPinWrite (Some (a @ ''.'' @ b @ ''.'' @ c)) (Some v) w =
     (if 0 \<noteq> value_num \<and> 1 \<noteq> value_num then Return (- 1) w
      else case port_pins ((b @ [NUL]) ! 3) of
             None \<Rightarrow> Return (- 1) w
           | Some pins \<Rightarrow>
               (case atoi (cstr (drop 2 b)) of
                  None \<Rightarrow> Undefined
                | Some port \<Rightarrow> RpcPinWrite_apply port pins pin_num value_num w))"
proof -
  let ?p = "a @ ''.'' @ b @ ''.'' @ c"
  have nf: "NUL \<notin> set ?p" using a b c by (simp add: component_def NUL_def)
  have p: "cstr ?p = ?p" by (rule cstr_literal [OF nf])
  have ne: "?p \<noteq> []" "hd ?p \<noteq> CHR ''g''" using a g by (simp_all add: component_def)
  have s1: "strtok_dot (?p @ [NUL]) 0
      = (Some 0, a @ NUL # b @ CHR ''.'' # c @ [NUL], length a + 1)"
    using strtok_dot_mid [OF a, of "[]" "b @ CHR ''.'' # c @ [NUL]"] by simp
  have s2: "strtok_dot (a @ NUL # b @ CHR ''.'' # c @ [NUL]) (length a + 1)
      = (Some (length a + 1), a @ NUL # b @ NUL # c @ [NUL], length a + length b + 2)"
    using strtok_dot_mid [OF b, of "a @ [NUL]" "c @ [NUL]"] by simp
  have s3: "strtok_dot (a @ NUL # b @ NUL # c @ [NUL]) (length a + length b + 2)
      = (Some (length a + length b + 2), a @ NUL # b @ NUL # c @ [NUL],
         length a + length b + 2 + length c)"
    using strtok_dot_last [OF c, of "a @ NUL # b @ [NUL]"] by simp
  have pin: "str_at (a @ NUL # b @ NUL # c @ [NUL]) (length a + length b + 2) = c"
  proof -
    have "drop (length a + length b + 2) ((a @ NUL # b @ [NUL]) @ c @ [NUL]) = c @ [NUL]"
      by (subst drop_append) simp
    then show ?thesis using cstr_component [OF c, of "[]"] by (simp add: str_at_def)
  qed
  have port: "str_at (a @ NUL # b @ NUL # c @ [NUL]) (length a + 1 + 2) = cstr (drop 2 b)"
  proof -
    have "drop (length a + 1 + 2) ((a @ [NUL]) @ b @ NUL # c @ [NUL]) = drop 2 b @ NUL # c @ [NUL]"
      using l by (subst drop_append) simp
    moreover have "cstr (drop 2 b @ NUL # c @ [NUL]) = cstr (drop 2 b)"
      by (simp add: cstr_def takeWhile_tail)
    ultimately show ?thesis by (simp add: str_at_def)
  qed
  have ch: "(a @ NUL # b @ NUL # c @ [NUL]) ! (length a + 1 + 2 + 1) = (b @ [NUL]) ! 3"
  proof -
    have e1: "a @ NUL # b @ NUL # c @ [NUL] = (a @ [NUL]) @ ((b @ [NUL]) @ c @ [NUL])" by simp
    have e2: "length a + 1 + 2 + 1 = length (a @ [NUL]) + 3" by simp
    have e3: "((b @ [NUL]) @ c @ [NUL]) ! 3 = (b @ [NUL]) ! 3"
      using l by (subst nth_append) simp
    show ?thesis unfolding e1 e2 nth_append_length_plus e3 ..
  qed
  have len: "\<not> length a + 1 + 2 + 1 \<ge> length (a @ NUL # b @ NUL # c @ [NUL])"
    using l by simp
  show ?thesis
    unfolding RpcPinWrite_def option.case p Let_def
    using ne v k s1 s2 s3 pin port ch len
    by (simp cong: if_cong option.case_cong)
qed

lemma port_pins_not_digit: "ch \<notin> set ''0123456789'' \<Longrightarrow> port_pins ch = None"
  by (simp add: port_pins_def)

lemma atoi_digit:
  "atoi ''1'' = Some 1" "atoi ''2'' = Some 2"
  by (simp_all add: atoi_def isspace_def isdigit_def Let_def)

lemma cstr_examples:
  "cstr ''gpio.4'' = ''gpio.4''" "cstr ''1'' = ''1''" "cstr ''2'' = ''2''"
  by (simp_all add: cstr_def NUL_def)

lemma component_examples:
  "component ''shield''" "component ''cn1x''" "component ''2''" "component ''x''"
  "component ''cn11''"
  by (simp_all add: component_def NUL_def)

lemma PinMode_transmit_frame:
  "PinMode_transmit w = Return r w' \<Longrightarrow>
     outputRegister1 w' = outputRegister1 w \<and> outputRegister2 w' = outputRegister2 w
     \<and> latches w' = latches w"
  by (auto simp add: PinMode_transmit_def Let_def prim_defs latches_def)

text \<open>
  C9 (as amended). \<open>RpcPinWrite\<close> returns -1 in an unchanged state, with no external
  call made, when the parameter name is NULL, is empty or begins with "g"; when the value
  read by \<open>atoi\<close> is neither 0 nor 1; and, for a name of three components, when the fourth
  character of the second component (the NUL after it, if it has three characters) is
  not one of the digits 0 to 9.
\<close>

theorem RpcPinWrite_rejections:
  "RpcPinWrite None val w = Return (- 1) w
   \<and> (cstr p = [] \<or> hd (cstr p) = CHR ''g'' \<longrightarrow> RpcPinWrite (Some p) val w = Return (- 1) w)
   \<and> (atoi (cstr v) = Some n \<and> n \<noteq> 0 \<and> n \<noteq> 1 \<longrightarrow>
        RpcPinWrite (Some p) (Some v) w = Return (- 1) w)
   \<and> (component a \<and> component b \<and> component c \<and> hd a \<noteq> CHR ''g''
        \<and> atoi (cstr v) = Some n \<and> atoi c = Some k
        \<and> 3 \<le> length b \<and> (b @ [NUL]) ! 3 \<notin> set ''0123456789'' \<longrightarrow>
        RpcPinWrite (Some (a @ ''.'' @ b @ ''.'' @ c)) (Some v) w = Return (- 1) w)"
proof (intro conjI impI)
  show "RpcPinWrite None val w = Return (- 1) w"
    by (simp add: RpcPinWrite_def)
  show "RpcPinWrite (Some p) val w = Return (- 1) w" if "cstr p = [] \<or> hd (cstr p) = CHR ''g''"
    using that by (auto simp add: RpcPinWrite_def Let_def)
  show "RpcPinWrite (Some p) (Some v) w = Return (- 1) w"
    if "atoi (cstr v) = Some n \<and> n \<noteq> 0 \<and> n \<noteq> 1"
    using that by (auto simp add: RpcPinWrite_def Let_def)
  assume h: "component a \<and> component b \<and> component c \<and> hd a \<noteq> CHR ''g''
        \<and> atoi (cstr v) = Some n \<and> atoi c = Some k
        \<and> 3 \<le> length b \<and> (b @ [NUL]) ! 3 \<notin> set ''0123456789''"
  then have n: "port_pins ((b @ [NUL]) ! 3) = None" by (intro port_pins_not_digit) simp
  from h have a: "component a" and b: "component b" and c: "component c"
    and g: "hd a \<noteq> CHR ''g''" and v: "atoi (cstr v) = Some n" and k: "atoi c = Some k"
    and l: "3 \<le> length b" by simp_all
  show "RpcPinWrite (Some (a @ ''.'' @ b @ ''.'' @ c)) (Some v) w = Return (- 1) w"
    unfolding RpcPinWrite_three_components [OF a b c g v k l] n by simp
qed

text \<open>
  The theorem at the name "gpio.4", at the value "2", and at the name "shield.cn1x.2".
\<close>

theorem RpcPinWrite_rejections_witness:
  "hd (cstr ''gpio.4'') = CHR ''g''
   \<and> RpcPinWrite (Some ''gpio.4'') (Some ''1'') initial_world = Return (- 1) initial_world
   \<and> atoi (cstr ''2'') = Some 2 \<and> (2::int) \<noteq> 0 \<and> (2::int) \<noteq> 1
   \<and> RpcPinWrite (Some ''shield.cn11.2'') (Some ''2'') initial_world = Return (- 1) initial_world
   \<and> component ''shield'' \<and> component ''cn1x'' \<and> component ''2''
   \<and> hd ''shield'' \<noteq> CHR ''g'' \<and> atoi (cstr ''1'') = Some 1 \<and> atoi ''2'' = Some 2
   \<and> 3 \<le> length ''cn1x'' \<and> (''cn1x'' @ [NUL]) ! 3 \<notin> set ''0123456789''
   \<and> RpcPinWrite (Some ''shield.cn1x.2'') (Some ''1'') initial_world = Return (- 1) initial_world"
proof -
  have h2: "cstr ''gpio.4'' = [] \<or> hd (cstr ''gpio.4'') = CHR ''g''"
    by (simp add: cstr_examples)
  have h3: "atoi (cstr ''2'') = Some 2 \<and> (2::int) \<noteq> 0 \<and> (2::int) \<noteq> 1"
    by (simp add: cstr_examples atoi_digit)
  have h4: "component ''shield'' \<and> component ''cn1x'' \<and> component ''2''
      \<and> hd ''shield'' \<noteq> CHR ''g'' \<and> atoi (cstr ''1'') = Some 1 \<and> atoi ''2'' = Some 2
      \<and> 3 \<le> length ''cn1x'' \<and> (''cn1x'' @ [NUL]) ! 3 \<notin> set ''0123456789''"
    by (simp add: component_examples cstr_examples atoi_digit)
  note t2 = RpcPinWrite_rejections [of "Some ''1''" initial_world "''gpio.4''",
    THEN conjunct2, THEN conjunct1, THEN mp, OF h2]
  note t3 = RpcPinWrite_rejections [of _ initial_world "''shield.cn11.2''" "''2''" 2,
    THEN conjunct2, THEN conjunct2, THEN conjunct1, THEN mp, OF h3]
  note t4 = RpcPinWrite_rejections [of _ initial_world _ "''1''" 1 "''shield''" "''cn1x''" "''2''" 2,
    THEN conjunct2, THEN conjunct2, THEN conjunct2, THEN mp, OF h4]
  from h2 h3 h4 t2 t3 t4 show ?thesis by (simp add: cstr_examples)
qed

text \<open>
  The claim as written rejects a wrong name prefix. Only a first character "g" is
  tested: "x.cn11.2" with the value "1" is carried out from the initial state like
  "shield.cn11.2": the call returns 0 and bit 0 of output register 1 is set.
\<close>

theorem RpcPinWrite_wrong_prefix_counterexample:
  "value_of (RpcPinWrite (Some ''x.cn11.2'') (Some ''1'') initial_world) = Some 0
   \<and> map_option outputRegister1
        (world_of (RpcPinWrite (Some ''x.cn11.2'') (Some ''1'') initial_world))
       = Some (0x00, 0x01)"
proof -
  have "RpcPinWrite (Some (''x'' @ ''.'' @ ''cn11'' @ ''.'' @ ''2'')) (Some ''1'') initial_world
      = RpcPinWrite_apply 11 (1, 2) 2 1 initial_world"
    by (subst RpcPinWrite_three_components [of "''x''" "''cn11''" "''2''" "''1''" 1 2])
       (simp_all add: component_examples cstr_examples atoi_digit atoi_11 port_pins_def
          cstr_def NUL_def)
  then have eq: "RpcPinWrite (Some ''x.cn11.2'') (Some ''1'') initial_world
      = RpcPinWrite_apply 11 (1, 2) 2 1 initial_world" by simp
  from PinMode_transmit_eq [of "initial_world\<lparr>internalRegister := (0xFF, 0xFE)\<rparr>"]
  obtain w1 where p: "PinMode_transmit (initial_world\<lparr>internalRegister := (0xFF, 0xFE)\<rparr>)
      = Return 0 w1" by auto
  from PinMode_transmit_frame [OF p]
  have o: "outputRegister1 w1 = (0x00, 0x00)" and l: "latches w1"
    using latches_initial by (simp_all add: initial_world_def latches_def)
  have a: "RpcPinWrite_apply 11 (1, 2) 2 1 initial_world = DigitalWrite 1 1 w1"
    by (simp add: RpcPinWrite_apply_def PinMode_1_DIO_initial p)
  let ?v = "w1\<lparr>outputRegister1 := (0x00, 0x01)\<rparr>"
  have d: "DigitalWrite 1 1 w1 = DigitalWrite_transmit OUTPUT_REG_1 outputRegister1 ?v"
    by (simp add: DigitalWrite_def HIGH_def or_shl1_def shl1_def o)
  from DigitalWrite_transmit_latched [of ?v OUTPUT_REG_1 outputRegister1] l
  obtain w' where r: "DigitalWrite_transmit OUTPUT_REG_1 outputRegister1 ?v = Return 0 w'"
    by auto
  from DigitalWrite_transmit_Return [OF r] have "outputRegister1 w' = (0x00, 0x01)" by simp
  with r show ?thesis by (simp add: eq a d value_of_def)
qed


end
